theory Spec2Isabelle
  imports Complex_Main
begin

section \<open>JavaScript values\<close>

text \<open>
  The worker reads the queue payload with \<^verbatim>\<open>JSON.parse\<close> and then uses the result
  untyped (\<^verbatim>\<open>let envelope: any\<close>, \<^verbatim>\<open>return envelope as EventBridgeEnvelope\<close>), so
  the model keeps JavaScript's dynamic values. \<open>Undefined\<close> is the value of a missing
  property; \<^verbatim>\<open>JSON.parse\<close> itself never yields it. Numbers are the finite values a
  JSON text denotes; the code only tests them for truthiness.
\<close>

datatype js =
    Undefined
  | Null
  | Bool bool
  | Num rat
  | Str string
  | Arr "js list"
  | Obj "(string \<times> js) list"

text \<open>
  JavaScript truthiness, as used by \<^verbatim>\<open>!x\<close> and \<^verbatim>\<open>x || y\<close>: \<^verbatim>\<open>undefined\<close>, \<^verbatim>\<open>null\<close>,
  \<^verbatim>\<open>false\<close>, \<^verbatim>\<open>0\<close> and \<^verbatim>\<open>""\<close> are falsy; every array and object is truthy.
\<close>

fun truthy :: "js \<Rightarrow> bool" where
  "truthy Undefined = False"
| "truthy Null = False"
| "truthy (Bool b) = b"
| "truthy (Num q) = (q \<noteq> 0)"
| "truthy (Str s) = (s \<noteq> [])"
| "truthy (Arr xs) = True"
| "truthy (Obj kvs) = True"

text \<open>
  Property read \<^verbatim>\<open>v.k\<close> for the property names the code uses (none of them is
  inherited from a prototype). An object built by \<^verbatim>\<open>JSON.parse\<close> keeps the last
  of several equal keys. On a primitive or an array the property is missing. On
  \<^verbatim>\<open>null\<close> and \<^verbatim>\<open>undefined\<close> JavaScript throws a TypeError: each caller below
  tests \<open>nullish\<close> first and returns that error.
\<close>

fun get :: "js \<Rightarrow> string \<Rightarrow> js" where
  "get (Obj kvs) k = (case map_of (rev kvs) k of None \<Rightarrow> Undefined | Some v \<Rightarrow> v)"
| "get _ k = Undefined"

fun nullish :: "js \<Rightarrow> bool" where
  "nullish Undefined = True"
| "nullish Null = True"
| "nullish _ = False"


section \<open>Errors\<close>

text \<open>
  An error thrown by an AWS SDK client, identified by its \<^verbatim>\<open>name\<close>: the worker tests
  \<^verbatim>\<open>err instanceof ConditionalCheckFailedException || err?.name ===
  'ConditionalCheckFailedException'\<close>, and the class sets that name.
\<close>

datatype sdk_error = SdkError (error_name: string)

datatype err =
    EmptyBody             \<comment> \<open>\<^verbatim>\<open>'SQS message body is empty'\<close>\<close>
  | InvalidJson           \<comment> \<open>\<^verbatim>\<open>'Failed to parse SQS message body as JSON'\<close>\<close>
  | InvalidEnvelope       \<comment> \<open>\<^verbatim>\<open>'SQS message does not contain a valid EventBridge envelope'\<close>\<close>
  | TableNotConfigured    \<comment> \<open>\<^verbatim>\<open>'TABLE_NAME is not configured'\<close>\<close>
  | FailureInjection      \<comment> \<open>\<^verbatim>\<open>'Failure injection triggered for sku=FAIL-ME'\<close>\<close>
  | TypeError             \<comment> \<open>thrown by the JavaScript runtime\<close>
  | Thrown sdk_error      \<comment> \<open>an SDK error, rethrown\<close>


section \<open>Worker: configuration and platform\<close>

text \<open>
  \<open>parseInt(s, 10)\<close>: leading white space is skipped, then an optional sign, then the
  longest run of decimal digits; with no digit the result is \<^verbatim>\<open>NaN\<close>, here \<open>None\<close>.
  The white space is the ASCII part of JavaScript's; the value is exact (a double is,
  below \<open>2 ^ 53\<close>).
\<close>

definition js_space :: "char \<Rightarrow> bool" where
  "js_space c = (c \<in> set [CHR 0x09, CHR 0x0A, CHR 0x0B, CHR 0x0C, CHR 0x0D, CHR 0x20])"

definition digit10 :: "char \<Rightarrow> bool" where
  "digit10 c = (c \<in> set ''0123456789'')"

definition digit_value :: "char \<Rightarrow> int" where
  "digit_value c = of_char c - 48"

definition parseInt10 :: "string \<Rightarrow> int option" where
  "parseInt10 s =
     (let t = dropWhile js_space s;
          neg = (case t of c # _ \<Rightarrow> c = CHR ''-'' | [] \<Rightarrow> False);
          u = (case t of c # r \<Rightarrow> if c = CHR ''-'' \<or> c = CHR ''+'' then r else t | [] \<Rightarrow> t);
          ds = takeWhile digit10 u;
          n = foldl (\<lambda>a c. 10 * a + digit_value c) 0 ds
      in if ds = [] then None else Some (if neg then - n else n))"

text \<open>
  What an invocation of the worker is given from outside: the two environment
  variables, \<^verbatim>\<open>JSON.parse\<close> (\<open>None\<close> when it throws), and the behaviour of the
  surroundings during the invocation, indexed by the number of table requests made
  so far: the reading of \<^verbatim>\<open>Date.now()\<close> in milliseconds, and whether the request
  fails in transport or storage (\<open>Some e\<close>) before the table evaluates it.
\<close>

record worker_env =
  env_TABLE_NAME :: "string option"
  env_TTL_DAYS :: "string option"
  JSON_parse :: "string \<Rightarrow> js option"
  Date_now :: "nat \<Rightarrow> int"
  fault :: "nat \<Rightarrow> sdk_error option"

text \<open>\<^verbatim>\<open>const TABLE_NAME = process.env.TABLE_NAME\<close>; \<^verbatim>\<open>!TABLE_NAME\<close> holds for a
  missing and for an empty variable.\<close>

definition TABLE_NAME_unset :: "worker_env \<Rightarrow> bool" where
  "TABLE_NAME_unset env = (case env_TABLE_NAME env of None \<Rightarrow> True | Some t \<Rightarrow> t = [])"

text \<open>\<^verbatim>\<open>const TTL_DAYS = parseInt(process.env.TTL_DAYS || '7', 10)\<close>.\<close>

definition TTL_DAYS :: "worker_env \<Rightarrow> int option" where
  "TTL_DAYS env =
     parseInt10 (case env_TTL_DAYS env of None \<Rightarrow> ''7'' | Some s \<Rightarrow> if s = [] then ''7'' else s)"


section \<open>The idempotency table\<close>

text \<open>
  An attribute value of a \<^verbatim>\<open>PutItemCommand\<close>: \<open>S v\<close> carries whatever JavaScript
  value the code put there, \<open>N n\<close> the number whose \<^verbatim>\<open>toString()\<close> is sent
  (\<open>None\<close> for \<^verbatim>\<open>NaN\<close>).
\<close>

datatype attribute_value = S js | N "int option"

type_synonym item = "(string \<times> attribute_value) list"

record put_item =
  TableName :: string
  Item :: item
  ConditionExpression :: string

text \<open>
  The table is keyed by \<^verbatim>\<open>eventId\<close> (the partition key declared in
  \<^verbatim>\<open>infra/lib/event-driven-stack.ts\<close>). The state also counts the requests made, which
  indexes \<open>Date_now\<close> and \<open>fault\<close>.
\<close>

record table_state =
  rows :: "string \<rightharpoonup> item"
  requests :: nat

text \<open>
  An item the table accepts: the key is a non-empty string, every \<open>S\<close> holds a string
  and every \<open>N\<close> a number. Anything else is rejected before the condition is looked at.
\<close>

fun valid_attribute :: "attribute_value \<Rightarrow> bool" where
  "valid_attribute (S (Str s)) = True"
| "valid_attribute (S _) = False"
| "valid_attribute (N n) = (n \<noteq> None)"

definition item_key :: "item \<Rightarrow> string option" where
  "item_key it = (case map_of it ''eventId'' of Some (S (Str k)) \<Rightarrow> (if k = [] then None else Some k) | _ \<Rightarrow> None)"

definition valid_item :: "item \<Rightarrow> bool" where
  "valid_item it = (item_key it \<noteq> None \<and> list_all (\<lambda>(a, v). valid_attribute v) it)"

text \<open>
  \<^verbatim>\<open>dynamoClient.send(command)\<close> against the table, as the service's contract for a
  put with the condition \<^verbatim>\<open>attribute_not_exists(eventId)\<close>: a transport or storage
  fault throws and leaves the rows alone; an item the table cannot accept throws a
  \<^verbatim>\<open>ValidationException\<close>; with the condition and the key present the put is rejected
  by \<^verbatim>\<open>ConditionalCheckFailedException\<close>; otherwise the item is stored under its key
  (a put without that condition replaces the row). Expiry of rows by the table's TTL
  is not part of an invocation and is not modelled.
\<close>

definition dynamo_send :: "worker_env \<Rightarrow> put_item \<Rightarrow> table_state \<Rightarrow> (sdk_error + unit) \<times> table_state" where
  "dynamo_send env cmd t =
     (let t1 = t\<lparr>requests := Suc (requests t)\<rparr> in
      case fault env (requests t) of
        Some e \<Rightarrow> (Inl e, t1)
      | None \<Rightarrow>
          (case (if valid_item (Item cmd) then item_key (Item cmd) else None) of
             None \<Rightarrow> (Inl (SdkError ''ValidationException''), t1)
           | Some k \<Rightarrow>
               if ConditionExpression cmd = ''attribute_not_exists(eventId)'' \<and> rows t k \<noteq> None
               then (Inl (SdkError ''ConditionalCheckFailedException''), t1)
               else (Inr (), t1\<lparr>rows := (rows t)(k \<mapsto> Item cmd)\<rparr>)))"


section \<open>Worker: \<^verbatim>\<open>services/worker/handler.ts\<close>\<close>

record sqs_record =
  messageId :: string
  body :: string

text \<open>
  \<^verbatim>\<open>parseEventBridgeEnvelope\<close>. \<^verbatim>\<open>JSON.parse("null")\<close> is \<^verbatim>\<open>null\<close>, and reading
  \<^verbatim>\<open>envelope.detail\<close> from it throws a TypeError.
\<close>

definition parseEventBridgeEnvelope :: "worker_env \<Rightarrow> sqs_record \<Rightarrow> err + js" where
  "parseEventBridgeEnvelope env record =
     (if body record = [] then Inl EmptyBody
      else case JSON_parse env (body record) of
        None \<Rightarrow> Inl InvalidJson
      | Some envelope \<Rightarrow>
          if nullish envelope then Inl TypeError
          else if \<not> truthy (get envelope ''detail'') \<or> \<not> truthy (get envelope ''detail-type'')
                  \<or> \<not> truthy (get envelope ''source'')
          then Inl InvalidEnvelope
          else Inr envelope)"

datatype idempotency_status = New | Duplicate

text \<open>The command \<^verbatim>\<open>recordIdempotency\<close> builds, given the reading of \<^verbatim>\<open>Date.now()\<close>.\<close>

definition put_command :: "worker_env \<Rightarrow> js \<Rightarrow> int \<Rightarrow> put_item" where
  "put_command env detail now =
     (let nowSeconds = now div 1000;
          ttlSeconds = map_option (\<lambda>d. nowSeconds + d * 24 * 60 * 60) (TTL_DAYS env)
      in \<lparr>TableName = (case env_TABLE_NAME env of Some t \<Rightarrow> t | None \<Rightarrow> []),
          Item = [(''eventId'', S (get detail ''eventId'')),
                  (''orderId'', S (get detail ''orderId'')),
                  (''createdAt'', S (get detail ''createdAt'')),
                  (''expiresAt'', N ttlSeconds)],
          ConditionExpression = ''attribute_not_exists(eventId)''\<rparr>)"

definition conditional_check_failed :: "sdk_error \<Rightarrow> bool" where
  "conditional_check_failed e = (error_name e = ''ConditionalCheckFailedException'')"

definition recordIdempotency ::
  "worker_env \<Rightarrow> js \<Rightarrow> table_state \<Rightarrow> (err + idempotency_status) \<times> table_state" where
  "recordIdempotency env detail t =
     (if TABLE_NAME_unset env then (Inl TableNotConfigured, t)
      else if nullish detail then (Inl TypeError, t)
      else case dynamo_send env (put_command env detail (Date_now env (requests t))) t of
        (Inr u, t') \<Rightarrow> (Inr New, t')
      | (Inl e, t') \<Rightarrow>
          if conditional_check_failed e then (Inr Duplicate, t') else (Inl (Thrown e), t'))"

text \<open>
  \<^verbatim>\<open>detail.items.some((item) => item.sku === 'FAIL-ME')\<close>, over the elements of the
  array: the callback throws a TypeError on a \<^verbatim>\<open>null\<close> element, and \<^verbatim>\<open>some\<close>
  stops at the first element for which it returns true.
\<close>

fun some_fail_sku :: "js list \<Rightarrow> err + bool" where
  "some_fail_sku [] = Inr False"
| "some_fail_sku (item # rest) =
     (if nullish item then Inl TypeError
      else if get item ''sku'' = Str ''FAIL-ME'' then Inr True
      else some_fail_sku rest)"

text \<open>
  \<^verbatim>\<open>processOrder\<close>. Only an array has a \<^verbatim>\<open>some\<close> method; for any other value of
  \<^verbatim>\<open>detail.items\<close> the call throws a TypeError. The result depends on \<open>detail\<close> alone.
\<close>

definition processOrder :: "js \<Rightarrow> err + unit" where
  "processOrder detail =
     (if nullish detail then Inl TypeError
      else case get detail ''items'' of
        Arr items \<Rightarrow>
          (case some_fail_sku items of
             Inl e \<Rightarrow> Inl e
           | Inr hasFailSku \<Rightarrow> if hasFailSku then Inl FailureInjection else Inr ())
      | _ \<Rightarrow> Inl TypeError)"

text \<open>
  How one record of the batch ends. The source has one \<^verbatim>\<open>try\<close> block around the
  three calls and one \<^verbatim>\<open>catch\<close>; the model keeps which call threw.
\<close>

datatype outcome =
    ParseFailed err
  | ClaimFailed err
  | DuplicateIgnored
  | ProcessFailed err
  | Processed

text \<open>The body of the \<^verbatim>\<open>for\<close> loop up to the \<^verbatim>\<open>catch\<close>.\<close>

definition process_record :: "worker_env \<Rightarrow> sqs_record \<Rightarrow> table_state \<Rightarrow> outcome \<times> table_state" where
  "process_record env record t =
     (case parseEventBridgeEnvelope env record of
        Inl e \<Rightarrow> (ParseFailed e, t)
      | Inr envelope \<Rightarrow>
          (let detail = get envelope ''detail'' in
           case recordIdempotency env detail t of
             (Inl e, t') \<Rightarrow> (ClaimFailed e, t')
           | (Inr Duplicate, t') \<Rightarrow> (DuplicateIgnored, t')
           | (Inr New, t') \<Rightarrow>
               (case processOrder detail of
                  Inl e \<Rightarrow> (ProcessFailed e, t')
                | Inr u \<Rightarrow> (Processed, t'))))"

text \<open>The records whose processing reaches the \<^verbatim>\<open>catch\<close> block.\<close>

fun caught :: "outcome \<Rightarrow> bool" where
  "caught (ParseFailed e) = True"
| "caught (ClaimFailed e) = True"
| "caught (ProcessFailed e) = True"
| "caught DuplicateIgnored = False"
| "caught Processed = False"

text \<open>
  \<^verbatim>\<open>handler\<close>: the loop over \<^verbatim>\<open>event.Records\<close>, pushing the \<^verbatim>\<open>messageId\<close> of every
  record whose processing threw onto \<^verbatim>\<open>batchItemFailures\<close>.
\<close>

fun handler_loop ::
  "worker_env \<Rightarrow> sqs_record list \<Rightarrow> string list \<Rightarrow> table_state \<Rightarrow> string list \<times> table_state" where
  "handler_loop env [] batchItemFailures t = (batchItemFailures, t)"
| "handler_loop env (record # records) batchItemFailures t =
     (case process_record env record t of
        (oc, t') \<Rightarrow>
          handler_loop env records
            (if caught oc then batchItemFailures @ [messageId record] else batchItemFailures) t')"

definition handler :: "worker_env \<Rightarrow> sqs_record list \<Rightarrow> table_state \<Rightarrow> string list \<times> table_state" where
  "handler env Records t = handler_loop env Records [] t"

text \<open>
  The course of a batch, record by record: the outcome of each record, and the table
  each record meets. Both follow \<open>process_record\<close> only, not \<open>handler_loop\<close>.
\<close>

fun outcomes :: "worker_env \<Rightarrow> sqs_record list \<Rightarrow> table_state \<Rightarrow> outcome list" where
  "outcomes env [] t = []"
| "outcomes env (record # records) t =
     fst (process_record env record t) # outcomes env records (snd (process_record env record t))"

fun table_after :: "worker_env \<Rightarrow> sqs_record list \<Rightarrow> table_state \<Rightarrow> table_state" where
  "table_after env [] t = t"
| "table_after env (record # records) t = table_after env records (snd (process_record env record t))"

text \<open>A record for which \<^verbatim>\<open>processOrder\<close> was called.\<close>

fun business_invoked :: "outcome \<Rightarrow> bool" where
  "business_invoked (ProcessFailed e) = True"
| "business_invoked Processed = True"
| "business_invoked _ = False"

text \<open>
  The console output of the worker (\<^verbatim>\<open>console.log\<close>, \<^verbatim>\<open>console.error\<close>) enters no
  result and no table request, and is left out of the model. The \<^verbatim>\<open>catch\<close> block only
  builds a log line with \<^verbatim>\<open>?.\<close> and \<^verbatim>\<open>??\<close> and cannot throw.
\<close>


subsection \<open>Conditions on an invocation\<close>

text \<open>The detail a record delivers, when its envelope parses.\<close>

definition carried_detail :: "worker_env \<Rightarrow> sqs_record \<Rightarrow> js option" where
  "carried_detail env record =
     (case parseEventBridgeEnvelope env record of Inl e \<Rightarrow> None | Inr envelope \<Rightarrow> Some (get envelope ''detail''))"

text \<open>
  The three fields \<^verbatim>\<open>recordIdempotency\<close> copies are strings, as the interface
  \<^verbatim>\<open>OrderCreatedDetail\<close> declares them, and the key is not empty.
\<close>

fun is_str :: "js \<Rightarrow> bool" where
  "is_str (Str s) = True"
| "is_str _ = False"

definition claim_fields :: "js \<Rightarrow> bool" where
  "claim_fields detail =
     ((case get detail ''eventId'' of Str e \<Rightarrow> e \<noteq> [] | _ \<Rightarrow> False)
      \<and> is_str (get detail ''orderId'') \<and> is_str (get detail ''createdAt''))"

text \<open>The worker is configured: the table is named and \<^verbatim>\<open>TTL_DAYS\<close> is a number.\<close>

definition configured :: "worker_env \<Rightarrow> bool" where
  "configured env = (\<not> TABLE_NAME_unset env \<and> TTL_DAYS env \<noteq> None)"


subsection \<open>The specification's Order Event\<close>

text \<open>
  The check the specification describes for envelope parsing, in its words: the detail
  has all required fields \<^verbatim>\<open>eventId\<close>, \<^verbatim>\<open>orderId\<close>, \<^verbatim>\<open>createdAt\<close>, a non-empty
  \<^verbatim>\<open>items\<close>, and each item has a non-empty \<^verbatim>\<open>sku\<close> and a strictly positive \<^verbatim>\<open>qty\<close>.
  It is compared with \<open>parseEventBridgeEnvelope\<close> below; the worker does not call it.
\<close>

definition spec_item :: "js \<Rightarrow> bool" where
  "spec_item item =
     ((case get item ''sku'' of Str s \<Rightarrow> s \<noteq> [] | _ \<Rightarrow> False)
      \<and> (case get item ''qty'' of Num q \<Rightarrow> 0 < q | _ \<Rightarrow> False))"

definition spec_order_event :: "js \<Rightarrow> bool" where
  "spec_order_event detail =
     (get detail ''eventId'' \<noteq> Undefined \<and> get detail ''orderId'' \<noteq> Undefined
      \<and> get detail ''createdAt'' \<noteq> Undefined
      \<and> (case get detail ''items'' of Arr items \<Rightarrow> items \<noteq> [] \<and> list_all spec_item items | _ \<Rightarrow> False))"


section \<open>Replay tool: \<^verbatim>\<open>scripts/replay-dlq.ts\<close>\<close>

text \<open>An SQS \<^verbatim>\<open>Message\<close>; the SDK declares every field optional.\<close>

record message =
  MessageId :: "string option"
  ReceiptHandle :: "string option"
  Body :: "string option"

text \<open>\<^verbatim>\<open>!x\<close> for an optional string: missing or empty.\<close>

definition missing :: "string option \<Rightarrow> bool" where
  "missing x = (case x of None \<Rightarrow> True | Some s \<Rightarrow> s = [])"

text \<open>The string in a field, read after the field was tested.\<close>

definition str :: "string option \<Rightarrow> string" where
  "str x = (case x of None \<Rightarrow> [] | Some s \<Rightarrow> s)"

text \<open>
  The requests the tool sends: \<^verbatim>\<open>ReceiveMessageCommand\<close> (queue, \<^verbatim>\<open>MaxNumberOfMessages\<close>,
  \<^verbatim>\<open>WaitTimeSeconds\<close>, \<^verbatim>\<open>VisibilityTimeout\<close>), \<^verbatim>\<open>SendMessageCommand\<close> (queue, body) and
  \<^verbatim>\<open>DeleteMessageBatchCommand\<close> (queue, entries of \<^verbatim>\<open>Id\<close> and \<^verbatim>\<open>ReceiptHandle\<close>).
\<close>

datatype sqs_call =
    ReceiveMessage string nat nat nat
  | SendMessage string string
  | DeleteMessageBatch string "(string \<times> string) list"

text \<open>
  The queues are outside the tool. What they answer is a function of the requests
  made so far (and of the request): any behaviour of the queues along one run is such
  a function. \<open>Inl e\<close> is a request that throws; the answer to a receive is
  \<^verbatim>\<open>result.Messages\<close>, the answer to a batch delete the \<^verbatim>\<open>Id\<close>s in
  \<^verbatim>\<open>deleteResult.Failed\<close>, both optional.
\<close>

record replay_env =
  env_MAIN_QUEUE_URL :: "string option"
  env_DLQ_URL :: "string option"
  on_receive :: "sqs_call list \<Rightarrow> sdk_error + message list option"
  on_send :: "sqs_call list \<Rightarrow> string \<Rightarrow> sdk_error + unit"
  on_delete :: "sqs_call list \<Rightarrow> (string \<times> string) list \<Rightarrow> sdk_error + string list option"

datatype log_line =
    LogEnvMissing                  \<comment> \<open>\<^verbatim>\<open>Error: MAIN_QUEUE_URL and DLQ_URL ... must be set\<close>\<close>
  | LogStart                       \<comment> \<open>\<^verbatim>\<open>Replaying messages from DLQ ...\<close>\<close>
  | LogSendFailed string sdk_error \<comment> \<open>\<^verbatim>\<open>Failed to send message <id> to main queue: ...\<close>\<close>
  | LogDeleteFailed nat            \<comment> \<open>\<^verbatim>\<open>Failed to delete <n> messages from DLQ after replay. Inspect DLQ for duplicates.\<close>\<close>
  | LogBatch nat nat               \<comment> \<open>\<^verbatim>\<open>Replayed <n> messages in this batch (total=<t>)\<close>\<close>
  | LogDone nat                    \<comment> \<open>\<^verbatim>\<open>Done. Total messages replayed: <t>\<close>\<close>
  | LogUnexpected sdk_error        \<comment> \<open>\<^verbatim>\<open>Unexpected error while replaying DLQ messages:\<close>\<close>

text \<open>The run so far: the requests sent, in order, and the lines printed.\<close>

record replay_state =
  calls :: "sqs_call list"
  console :: "log_line list"

definition MAIN_QUEUE_URL :: "replay_env \<Rightarrow> string" where
  "MAIN_QUEUE_URL env = str (env_MAIN_QUEUE_URL env)"

definition DLQ_URL :: "replay_env \<Rightarrow> string" where
  "DLQ_URL env = str (env_DLQ_URL env)"

text \<open>The \<^verbatim>\<open>receiveCommand\<close> of \<^verbatim>\<open>replayOnce\<close>.\<close>

definition receiveCommand :: "replay_env \<Rightarrow> sqs_call" where
  "receiveCommand env = ReceiveMessage (DLQ_URL env) 10 1 30"

definition receive_message :: "replay_env \<Rightarrow> replay_state \<Rightarrow> (sdk_error + message list option) \<times> replay_state" where
  "receive_message env st =
     (on_receive env (calls st), st\<lparr>calls := calls st @ [receiveCommand env]\<rparr>)"

definition send_message :: "replay_env \<Rightarrow> string \<Rightarrow> replay_state \<Rightarrow> (sdk_error + unit) \<times> replay_state" where
  "send_message env b st =
     (on_send env (calls st) b, st\<lparr>calls := calls st @ [SendMessage (MAIN_QUEUE_URL env) b]\<rparr>)"

definition delete_message_batch ::
  "replay_env \<Rightarrow> (string \<times> string) list \<Rightarrow> replay_state \<Rightarrow> (sdk_error + string list option) \<times> replay_state" where
  "delete_message_batch env entries st =
     (on_delete env (calls st) entries, st\<lparr>calls := calls st @ [DeleteMessageBatch (DLQ_URL env) entries]\<rparr>)"

text \<open>The test at the head of the \<^verbatim>\<open>for\<close> loop of \<^verbatim>\<open>replayOnce\<close>.\<close>

definition incomplete :: "message \<Rightarrow> bool" where
  "incomplete msg = (missing (Body msg) \<or> missing (ReceiptHandle msg) \<or> missing (MessageId msg))"

text \<open>
  The \<^verbatim>\<open>for\<close> loop of \<^verbatim>\<open>replayOnce\<close>, with its two variables \<^verbatim>\<open>processedCount\<close> and
  \<^verbatim>\<open>toDelete\<close>. A send that throws is caught and printed.
\<close>

fun forward_loop ::
  "replay_env \<Rightarrow> message list \<Rightarrow> nat \<Rightarrow> message list \<Rightarrow> replay_state \<Rightarrow> nat \<times> message list \<times> replay_state" where
  "forward_loop env [] processedCount toDelete st = (processedCount, toDelete, st)"
| "forward_loop env (msg # rest) processedCount toDelete st =
     (if incomplete msg then forward_loop env rest processedCount toDelete st
      else case send_message env (str (Body msg)) st of
        (Inr u, st') \<Rightarrow> forward_loop env rest (processedCount + 1) (toDelete @ [msg]) st'
      | (Inl e, st') \<Rightarrow>
          forward_loop env rest processedCount toDelete
            (st'\<lparr>console := console st' @ [LogSendFailed (str (MessageId msg)) e]\<rparr>))"

definition delete_entry :: "message \<Rightarrow> string \<times> string" where
  "delete_entry m = (str (MessageId m), str (ReceiptHandle m))"

definition replayOnce :: "replay_env \<Rightarrow> replay_state \<Rightarrow> (sdk_error + nat) \<times> replay_state" where
  "replayOnce env st =
     (case receive_message env st of
        (Inl e, st1) \<Rightarrow> (Inl e, st1)
      | (Inr result_Messages, st1) \<Rightarrow>
          (let messages = (case result_Messages of None \<Rightarrow> [] | Some ms \<Rightarrow> ms) in
           if length messages = 0 then (Inr 0, st1)
           else case forward_loop env messages 0 [] st1 of
             (processedCount, toDelete, st2) \<Rightarrow>
               if length toDelete > 0 then
                 (case delete_message_batch env (map delete_entry toDelete) st2 of
                    (Inl e, st3) \<Rightarrow> (Inl e, st3)
                  | (Inr deleteResult_Failed, st3) \<Rightarrow>
                      (let failed = (case deleteResult_Failed of None \<Rightarrow> [] | Some fs \<Rightarrow> fs) in
                       (Inr processedCount,
                        if length failed > 0
                        then st3\<lparr>console := console st3 @ [LogDeleteFailed (length failed)]\<rparr>
                        else st3)))
               else (Inr processedCount, st2)))"

text \<open>
  The \<^verbatim>\<open>while (true)\<close> loop of \<^verbatim>\<open>main\<close>. It need not end; \<open>None\<close> is a run that
  never leaves the loop. An error thrown by \<^verbatim>\<open>replayOnce\<close> leaves the loop as \<open>Inl\<close>.
\<close>

partial_function (option) drain ::
  "replay_env \<Rightarrow> nat \<Rightarrow> replay_state \<Rightarrow> ((sdk_error + nat) \<times> replay_state) option" where
  "drain env totalReplayed st =
     (case replayOnce env st of
        (Inl e, st') \<Rightarrow> Some (Inl e, st')
      | (Inr replayed, st') \<Rightarrow>
          if replayed = 0 then Some (Inr totalReplayed, st')
          else drain env (totalReplayed + replayed)
                 (st'\<lparr>console := console st' @ [LogBatch replayed (totalReplayed + replayed)]\<rparr>))"

definition main :: "replay_env \<Rightarrow> replay_state \<Rightarrow> ((sdk_error + nat) \<times> replay_state) option" where
  "main env st =
     (case drain env 0 (st\<lparr>console := console st @ [LogStart]\<rparr>) of
        None \<Rightarrow> None
      | Some (Inl e, st') \<Rightarrow> Some (Inl e, st')
      | Some (Inr totalReplayed, st') \<Rightarrow>
          Some (Inr totalReplayed, st'\<lparr>console := console st' @ [LogDone totalReplayed]\<rparr>))"

text \<open>
  The script as a whole, with its exit status: the check of the two environment
  variables when the module is loaded, then \<^verbatim>\<open>main().catch(...)\<close>.
\<close>

definition replay_script :: "replay_env \<Rightarrow> replay_state \<Rightarrow> (nat \<times> replay_state) option" where
  "replay_script env st =
     (if missing (env_MAIN_QUEUE_URL env) \<or> missing (env_DLQ_URL env)
      then Some (1, st\<lparr>console := console st @ [LogEnvMissing]\<rparr>)
      else case main env st of
        None \<Rightarrow> None
      | Some (Inl e, st') \<Rightarrow> Some (1, st'\<lparr>console := console st' @ [LogUnexpected e]\<rparr>)
      | Some (Inr totalReplayed, st') \<Rightarrow> Some (0, st'))"


subsection \<open>The course of a replay\<close>

text \<open>
  The rounds of the loop of \<^verbatim>\<open>main\<close>, one call of \<^verbatim>\<open>replayOnce\<close> each: the running
  total and the state with which round \<open>k\<close> starts, when every earlier round
  replayed at least one message.
\<close>

definition next_round :: "replay_env \<Rightarrow> nat \<times> replay_state \<Rightarrow> nat \<times> replay_state" where
  "next_round env p =
     (case p of (totalReplayed, st) \<Rightarrow>
        (case replayOnce env st of
           (Inl e, st') \<Rightarrow> (totalReplayed, st')
         | (Inr replayed, st') \<Rightarrow>
             (totalReplayed + replayed,
              st'\<lparr>console := console st' @ [LogBatch replayed (totalReplayed + replayed)]\<rparr>)))"

primrec round_start :: "replay_env \<Rightarrow> nat \<Rightarrow> nat \<times> replay_state \<Rightarrow> nat \<times> replay_state" where
  "round_start env 0 p = p"
| "round_start env (Suc k) p = round_start env k (next_round env p)"

text \<open>Round \<open>k\<close> replays at least one message, so that the loop goes on.\<close>

definition round_continues :: "replay_env \<Rightarrow> nat \<Rightarrow> nat \<times> replay_state \<Rightarrow> bool" where
  "round_continues env k p =
     (case fst (replayOnce env (snd (round_start env k p))) of Inl e \<Rightarrow> False | Inr replayed \<Rightarrow> 0 < replayed)"

text \<open>What the loop returns when it is left in round \<open>k\<close>.\<close>

definition round_exit :: "replay_env \<Rightarrow> nat \<Rightarrow> nat \<times> replay_state \<Rightarrow> (sdk_error + nat) \<times> replay_state" where
  "round_exit env k p =
     (case replayOnce env (snd (round_start env k p)) of
        (Inl e, st') \<Rightarrow> (Inl e, st')
      | (Inr replayed, st') \<Rightarrow> (Inr (fst (round_start env k p)), st'))"

text \<open>
  The messages of a received batch that are forwarded with success, by position: the
  requests made before message \<open>i\<close> is sent are those before the loop and one send for
  each complete message ahead of it.
\<close>

definition calls_before :: "replay_env \<Rightarrow> sqs_call list \<Rightarrow> message list \<Rightarrow> nat \<Rightarrow> sqs_call list" where
  "calls_before env h messages i =
     h @ map (\<lambda>m. SendMessage (MAIN_QUEUE_URL env) (str (Body m))) (filter (\<lambda>m. \<not> incomplete m) (take i messages))"

definition forwarded_at :: "replay_env \<Rightarrow> sqs_call list \<Rightarrow> message list \<Rightarrow> nat \<Rightarrow> bool" where
  "forwarded_at env h messages i =
     (\<not> incomplete (messages ! i)
      \<and> on_send env (calls_before env h messages i) (str (Body (messages ! i))) = Inr ())"

definition forwarded :: "replay_env \<Rightarrow> sqs_call list \<Rightarrow> message list \<Rightarrow> message list" where
  "forwarded env h messages =
     map (\<lambda>i. messages ! i) (filter (forwarded_at env h messages) [0..<length messages])"


section \<open>Sample data\<close>

text \<open>
  Payloads for the examples: a valid order, an order with the fault-injection sku,
  and an envelope whose detail has none of the order's fields. \<open>sample_parse\<close>
  agrees with \<^verbatim>\<open>JSON.parse\<close> on these three texts and on \<open>''not json''\<close>, on
  which \<^verbatim>\<open>JSON.parse\<close> throws; the examples use it on no other text.
\<close>

definition order_detail :: "string \<Rightarrow> string \<Rightarrow> js" where
  "order_detail eventId sku =
     Obj [(''schemaVersion'', Str ''1.0''), (''eventId'', Str eventId), (''orderId'', Str ''o1''),
          (''createdAt'', Str ''2024-01-01T00:00:00.000Z''),
          (''items'', Arr [Obj [(''sku'', Str sku), (''qty'', Num 2)]])]"

definition envelope_of :: "js \<Rightarrow> js" where
  "envelope_of detail =
     Obj [(''id'', Str ''1''), (''source'', Str ''myapp.orders''),
          (''detail-type'', Str ''OrderCreated''), (''detail'', detail)]"

definition body_e1 :: string where
  \<open>body_e1 = ''{"id":"1","source":"myapp.orders","detail-type":"OrderCreated","detail":{"schemaVersion":"1.0","eventId":"e1","orderId":"o1","createdAt":"2024-01-01T00:00:00.000Z","items":[{"sku":"SKU-1","qty":2}]}}''\<close>

definition body_e2 :: string where
  \<open>body_e2 = ''{"id":"1","source":"myapp.orders","detail-type":"OrderCreated","detail":{"schemaVersion":"1.0","eventId":"e2","orderId":"o1","createdAt":"2024-01-01T00:00:00.000Z","items":[{"sku":"FAIL-ME","qty":2}]}}''\<close>

definition body_bare :: string where
  \<open>body_bare = ''{"id":"1","source":"myapp.orders","detail-type":"OrderCreated","detail":{"note":"x"}}''\<close>

definition sample_parse :: "string \<Rightarrow> js option" where
  "sample_parse text =
     map_of [(body_e1, envelope_of (order_detail ''e1'' ''SKU-1'')),
             (body_e2, envelope_of (order_detail ''e2'' ''FAIL-ME'')),
             (body_bare, envelope_of (Obj [(''note'', Str ''x'')]))] text"

text \<open>A configured worker with an available table, and a table with no rows.\<close>

definition sample_env :: worker_env where
  "sample_env =
     \<lparr>env_TABLE_NAME = Some ''orders-idempotency'', env_TTL_DAYS = None,
      JSON_parse = sample_parse, Date_now = (\<lambda>n. 1700000000999), fault = (\<lambda>n. None)\<rparr>"

definition empty_table :: table_state where
  "empty_table = \<lparr>rows = Map.empty, requests = 0\<rparr>"

text \<open>The same worker with a table whose first request times out.\<close>

definition flaky_env :: worker_env where
  "flaky_env = sample_env\<lparr>fault := (\<lambda>n. if n = 0 then Some (SdkError ''TimeoutError'') else None)\<rparr>"

definition delivery :: "string \<Rightarrow> string \<Rightarrow> sqs_record" where
  "delivery mid payload = \<lparr>messageId = mid, body = payload\<rparr>"

text \<open>
  A dead-letter queue that answers the first receive with four messages, the second
  of them without a body, and every later receive with none; the main queue refuses
  the body \<open>''b3''\<close>; every batch delete reports that \<open>''id-4''\<close> could not be deleted.
\<close>

definition dlq_message :: "string \<Rightarrow> string option \<Rightarrow> message" where
  "dlq_message n b = \<lparr>MessageId = Some (''id-'' @ n), ReceiptHandle = Some (''rh-'' @ n), Body = b\<rparr>"

definition sample_replay_env :: replay_env where
  "sample_replay_env =
     \<lparr>env_MAIN_QUEUE_URL = Some ''main'', env_DLQ_URL = Some ''dlq'',
      on_receive = (\<lambda>h. if h = [] then Inr (Some [dlq_message ''1'' (Some ''b1''), dlq_message ''2'' None,
                                                  dlq_message ''3'' (Some ''b3''), dlq_message ''4'' (Some ''b4'')])
                         else Inr None),
      on_send = (\<lambda>h b. if b = ''b3'' then Inl (SdkError ''ServiceUnavailable'') else Inr ()),
      on_delete = (\<lambda>h entries. Inr (Some [''id-4'']))\<rparr>"

text \<open>A dead-letter queue that always answers with one message, and a main queue that refuses every send.\<close>

definition stuck_replay_env :: replay_env where
  "stuck_replay_env =
     \<lparr>env_MAIN_QUEUE_URL = Some ''main'', env_DLQ_URL = Some ''dlq'',
      on_receive = (\<lambda>h. Inr (Some [dlq_message ''1'' (Some ''b1'')])),
      on_send = (\<lambda>h b. Inl (SdkError ''ServiceUnavailable'')),
      on_delete = (\<lambda>h entries. Inr None)\<rparr>"

text \<open>A dead-letter queue whose first answer is two messages without receipt handle.\<close>

definition headless_replay_env :: replay_env where
  "headless_replay_env =
     \<lparr>env_MAIN_QUEUE_URL = Some ''main'', env_DLQ_URL = Some ''dlq'',
      on_receive = (\<lambda>h. Inr (Some [\<lparr>MessageId = Some ''id-1'', ReceiptHandle = None, Body = Some ''b1''\<rparr>,
                                     \<lparr>MessageId = Some ''id-2'', ReceiptHandle = Some [], Body = Some ''b2''\<rparr>])),
      on_send = (\<lambda>h b. Inr ()),
      on_delete = (\<lambda>h entries. Inr None)\<rparr>"

definition fresh_run :: replay_state where
  "fresh_run = \<lparr>calls = [], console = []\<rparr>"


section \<open>Worker: properties\<close>

lemma valid_attribute_S: "valid_attribute (S v) = is_str v"
  by (cases v) simp_all

lemma valid_put_command:
  "valid_item (Item (put_command env d now)) \<longleftrightarrow> claim_fields d \<and> TTL_DAYS env \<noteq> None"
  by (auto simp: valid_item_def put_command_def item_key_def claim_fields_def Let_def valid_attribute_S
           split: js.splits)

lemma item_key_put_command:
  "get d ''eventId'' = Str e \<Longrightarrow> e \<noteq> [] \<Longrightarrow> item_key (Item (put_command env d now)) = Some e"
  by (simp add: item_key_def put_command_def Let_def)

lemma condition_put_command:
  "ConditionExpression (put_command env d now) = ''attribute_not_exists(eventId)''"
  by (simp add: put_command_def Let_def)

lemma dynamo_send_error:
  "dynamo_send env cmd t = (Inl e, t') \<Longrightarrow> t' = t\<lparr>requests := Suc (requests t)\<rparr>"
  by (auto simp: dynamo_send_def Let_def split: option.splits if_splits)

lemma dynamo_send_keeps_row:
  "ConditionExpression cmd = ''attribute_not_exists(eventId)'' \<Longrightarrow> rows t k = Some it \<Longrightarrow>
   rows (snd (dynamo_send env cmd t)) k = Some it"
  by (auto simp: dynamo_send_def Let_def split: option.splits if_splits)

lemma recordIdempotency_keeps_row:
  assumes "recordIdempotency env d t = (x, t')" "rows t k = Some it"
  shows "rows t' k = Some it"
proof -
  have "rows (snd (dynamo_send env (put_command env d (Date_now env (requests t))) t)) k = Some it"
    using assms(2) by (rule dynamo_send_keeps_row [OF condition_put_command])
  with assms show ?thesis
    by (auto simp: recordIdempotency_def split: prod.splits sum.splits if_splits)
qed

lemma process_record_keeps_row:
  assumes "rows t k = Some it"
  shows "rows (snd (process_record env r t)) k = Some it"
  using assms recordIdempotency_keeps_row [of env _ t _ _ k it]
  by (auto simp: process_record_def Let_def split: prod.splits sum.splits idempotency_status.splits)

lemma table_after_keeps_row:
  "rows t k = Some it \<Longrightarrow> rows (table_after env rs t) k = Some it"
  by (induction rs arbitrary: t) (simp_all add: process_record_keeps_row)

lemma recordIdempotency_Duplicate:
  assumes "configured env" "fault env (requests t) = None"
    and "claim_fields d" "get d ''eventId'' = Str e" "rows t e \<noteq> None"
  shows "recordIdempotency env d t = (Inr Duplicate, t\<lparr>requests := Suc (requests t)\<rparr>)"
proof -
  from assms(3,4) have ne: "e \<noteq> []" and nn: "\<not> nullish d"
    by (auto simp: claim_fields_def elim: nullish.elims)
  have "dynamo_send env (put_command env d (Date_now env (requests t))) t
        = (Inl (SdkError ''ConditionalCheckFailedException''), t\<lparr>requests := Suc (requests t)\<rparr>)"
    using assms ne
    by (simp add: dynamo_send_def valid_put_command item_key_put_command condition_put_command configured_def)
  then show ?thesis
    using assms(1) nn by (simp add: recordIdempotency_def configured_def conditional_check_failed_def)
qed

lemma recordIdempotency_New:
  assumes "configured env" "fault env (requests t) = None"
    and "claim_fields d" "get d ''eventId'' = Str e" "rows t e = None"
  shows "recordIdempotency env d t =
    (Inr New, t\<lparr>requests := Suc (requests t),
                 rows := (rows t)(e \<mapsto> Item (put_command env d (Date_now env (requests t))))\<rparr>)"
proof -
  from assms(3,4) have ne: "e \<noteq> []" and nn: "\<not> nullish d"
    by (auto simp: claim_fields_def elim: nullish.elims)
  have "dynamo_send env (put_command env d (Date_now env (requests t))) t
        = (Inr (), t\<lparr>requests := Suc (requests t),
                 rows := (rows t)(e \<mapsto> Item (put_command env d (Date_now env (requests t))))\<rparr>)"
    using assms ne
    by (simp add: dynamo_send_def valid_put_command item_key_put_command condition_put_command configured_def)
  then show ?thesis
    using assms(1) nn by (simp add: recordIdempotency_def configured_def)
qed

lemma handler_loop_outcomes:
  "handler_loop env rs acc t =
     (acc @ map (messageId \<circ> fst) (filter (\<lambda>p. caught (snd p)) (zip rs (outcomes env rs t))),
      table_after env rs t)"
  by (induction rs arbitrary: acc t) (auto split: prod.splits)

lemma length_outcomes: "length (outcomes env rs t) = length rs"
  by (induction rs arbitrary: t) simp_all

lemma outcomes_append:
  "outcomes env (xs @ ys) t = outcomes env xs t @ outcomes env ys (table_after env xs t)"
  by (induction xs arbitrary: t) simp_all

lemma outcomes_nth:
  "i < length rs \<Longrightarrow>
   outcomes env rs t ! i = fst (process_record env (rs ! i) (table_after env (take i rs) t))"
proof (induction rs arbitrary: t i)
  case Nil
  then show ?case by simp
next
  case (Cons r rs)
  then show ?case by (cases i) simp_all
qed


lemma failures_member:
  assumes "distinct (map messageId rs)" "i < length rs" "length os = length rs"
  shows "messageId (rs ! i) \<in> set (map (messageId \<circ> fst) (filter (\<lambda>p. caught (snd p)) (zip rs os)))
         \<longleftrightarrow> caught (os ! i)"
proof
  assume "messageId (rs ! i) \<in> set (map (messageId \<circ> fst) (filter (\<lambda>p. caught (snd p)) (zip rs os)))"
  then obtain p where p: "p \<in> set (zip rs os)" "caught (snd p)" "messageId (fst p) = messageId (rs ! i)"
    by auto
  then obtain j where j: "j < length rs" "p = (rs ! j, os ! j)"
    using assms(3) by (auto simp: set_zip)
  with p(3) assms(1,2) have "j = i"
    by (metis distinct_conv_nth fst_conv length_map nth_map)
  with p(2) j show "caught (os ! i)" by simp
next
  assume "caught (os ! i)"
  moreover have "(rs ! i, os ! i) \<in> set (zip rs os)"
    using assms(2,3) by (auto simp: set_zip)
  ultimately show "messageId (rs ! i) \<in> set (map (messageId \<circ> fst) (filter (\<lambda>p. caught (snd p)) (zip rs os)))"
    by force
qed

lemma handler_failures:
  "fst (handler env rs t) = map (messageId \<circ> fst) (filter (\<lambda>p. caught (snd p)) (zip rs (outcomes env rs t)))"
  by (simp add: handler_def handler_loop_outcomes)

lemma handler_table: "snd (handler env rs t) = table_after env rs t"
  by (simp add: handler_def handler_loop_outcomes)

lemma handler_member:
  assumes "distinct (map messageId rs)" "i < length rs"
  shows "messageId (rs ! i) \<in> set (fst (handler env rs t)) \<longleftrightarrow> caught (outcomes env rs t ! i)"
  unfolding handler_failures using assms by (rule failures_member) (rule length_outcomes)

lemma carried_detailD:
  "carried_detail env r = Some d \<Longrightarrow> \<exists>envelope. parseEventBridgeEnvelope env r = Inr envelope \<and> get envelope ''detail'' = d"
  by (auto simp: carried_detail_def split: sum.splits)

lemma process_record_Duplicate:
  assumes "configured env" "fault env (requests t) = None" "carried_detail env r = Some d"
    and "claim_fields d" "get d ''eventId'' = Str e" "rows t e \<noteq> None"
  shows "process_record env r t = (DuplicateIgnored, t\<lparr>requests := Suc (requests t)\<rparr>)"
  using carried_detailD [OF assms(3)] recordIdempotency_Duplicate [OF assms(1,2,4,5,6)]
  by (auto simp: process_record_def)

lemma process_record_New:
  assumes "configured env" "fault env (requests t) = None" "carried_detail env r = Some d"
    and "claim_fields d" "get d ''eventId'' = Str e" "rows t e = None"
  shows "process_record env r t =
     ((case processOrder d of Inl x \<Rightarrow> ProcessFailed x | Inr u \<Rightarrow> Processed),
      t\<lparr>requests := Suc (requests t),
        rows := (rows t)(e \<mapsto> Item (put_command env d (Date_now env (requests t))))\<rparr>)"
  using carried_detailD [OF assms(3)] recordIdempotency_New [OF assms(1,2,4,5,6)]
  by (auto simp: process_record_def split: sum.splits)

lemma duplicate_in_batch:
  assumes "configured env" "\<forall>n. fault env n = None" "claim_fields d" "get d ''eventId'' = Str e"
    and "rows t e \<noteq> None" "i < length rs" "carried_detail env (rs ! i) = Some d"
  shows "outcomes env rs t ! i = DuplicateIgnored"
proof -
  let ?ti = "table_after env (take i rs) t"
  from assms(5) obtain it where "rows t e = Some it" by auto
  then have "rows ?ti e \<noteq> None" by (simp add: table_after_keeps_row)
  moreover have "fault env (requests ?ti) = None" using assms(2) by simp
  ultimately have "process_record env (rs ! i) ?ti = (DuplicateIgnored, ?ti\<lparr>requests := Suc (requests ?ti)\<rparr>)"
    using assms by (intro process_record_Duplicate) auto
  then show ?thesis using assms(6) by (simp add: outcomes_nth)
qed

lemma table_after_rows_at:
  "rows t e \<noteq> None \<Longrightarrow> rows (table_after env rs t) e = rows t e"
  by (auto simp: table_after_keeps_row)

text \<open>
  Claim C1. With the worker configured and the table available, an envelope whose
  detail carries an \<^verbatim>\<open>eventId\<close> that already has a row is claimed as a duplicate
  wherever it stands in a batch: \<^verbatim>\<open>processOrder\<close> is not called for it, its
  \<^verbatim>\<open>messageId\<close> is not in \<^verbatim>\<open>batchItemFailures\<close>, and the row stays as it was. When
  the same \<^verbatim>\<open>eventId\<close> is delivered twice, starting without a row, the second delivery
  is a duplicate and is acknowledged, \<^verbatim>\<open>processOrder\<close> is called exactly once over
  the two deliveries, and the table holds the one row the first delivery wrote.
\<close>

theorem duplicate_delivery_acknowledged:
  assumes "configured env" and "\<forall>n. fault env n = None"
    and "claim_fields d" and "get d ''eventId'' = Str e"
  shows "(\<forall>Records i. distinct (map messageId Records) \<and> i < length Records
            \<and> carried_detail env (Records ! i) = Some d \<and> rows t e \<noteq> None \<longrightarrow>
            outcomes env Records t ! i = DuplicateIgnored
            \<and> \<not> business_invoked (outcomes env Records t ! i)
            \<and> messageId (Records ! i) \<notin> set (fst (handler env Records t))
            \<and> rows (snd (handler env Records t)) e = rows t e)
       \<and> (\<forall>r1 r2. carried_detail env r1 = Some d \<and> carried_detail env r2 = Some d \<and> rows t e = None \<longrightarrow>
            (let t1 = snd (handler env [r1] t) in
             outcomes env [r2] t1 = [DuplicateIgnored]
             \<and> fst (handler env [r2] t1) = []
             \<and> length (filter business_invoked (outcomes env [r1] t @ outcomes env [r2] t1)) = 1
             \<and> rows (snd (handler env [r2] t1)) =
                 (rows t)(e \<mapsto> Item (put_command env d (Date_now env (requests t))))))"
proof (intro conjI allI impI)
  fix Records i
  assume h: "distinct (map messageId Records) \<and> i < length Records
            \<and> carried_detail env (Records ! i) = Some d \<and> rows t e \<noteq> None"
  then have dup: "outcomes env Records t ! i = DuplicateIgnored"
    using assms by (intro duplicate_in_batch) auto
  then show "outcomes env Records t ! i = DuplicateIgnored" .
  from dup show "\<not> business_invoked (outcomes env Records t ! i)" by simp
  from dup h show "messageId (Records ! i) \<notin> set (fst (handler env Records t))"
    by (simp add: handler_member)
  from h show "rows (snd (handler env Records t)) e = rows t e"
    by (simp add: handler_table table_after_rows_at)
next
  fix r1 r2
  assume h: "carried_detail env r1 = Some d \<and> carried_detail env r2 = Some d \<and> rows t e = None"
  let ?t1 = "t\<lparr>requests := Suc (requests t),
        rows := (rows t)(e \<mapsto> Item (put_command env d (Date_now env (requests t))))\<rparr>"
  have first: "process_record env r1 t =
     ((case processOrder d of Inl x \<Rightarrow> ProcessFailed x | Inr u \<Rightarrow> Processed), ?t1)"
    using assms h by (intro process_record_New) auto
  have second: "process_record env r2 ?t1 = (DuplicateIgnored, ?t1\<lparr>requests := Suc (requests ?t1)\<rparr>)"
    using assms h by (intro process_record_Duplicate) auto
  show "let t1 = snd (handler env [r1] t) in
             outcomes env [r2] t1 = [DuplicateIgnored]
             \<and> fst (handler env [r2] t1) = []
             \<and> length (filter business_invoked (outcomes env [r1] t @ outcomes env [r2] t1)) = 1
             \<and> rows (snd (handler env [r2] t1)) =
                 (rows t)(e \<mapsto> Item (put_command env d (Date_now env (requests t))))"
    using first second by (simp add: handler_def Let_def split: sum.splits)
qed


lemmas worker_eval =
  handler_def process_record_def parseEventBridgeEnvelope_def recordIdempotency_def processOrder_def
  dynamo_send_def put_command_def valid_item_def item_key_def conditional_check_failed_def
  TABLE_NAME_unset_def TTL_DAYS_def parseInt10_def js_space_def digit10_def digit_value_def
  carried_detail_def claim_fields_def configured_def
  sample_env_def flaky_env_def empty_table_def delivery_def sample_parse_def envelope_of_def order_detail_def
  body_e1_def body_e2_def body_bare_def Let_def

lemma sample_configured: "configured sample_env"
  by (simp add: worker_eval)

lemma sample_carried_e1:
  "carried_detail sample_env (delivery m body_e1) = Some (order_detail ''e1'' ''SKU-1'')"
  by (simp add: worker_eval)

lemma sample_carried_e2:
  "carried_detail sample_env (delivery m body_e2) = Some (order_detail ''e2'' ''FAIL-ME'')"
  by (simp add: worker_eval)

lemma sample_claim_fields: "claim_fields (order_detail e sku) = (e \<noteq> [])"
  by (simp add: worker_eval)

lemma delivery_messageId: "messageId (delivery m b) = m"
  by (simp add: delivery_def)

lemma sample_eventId: "get (order_detail e sku) ''eventId'' = Str e"
  by (simp add: order_detail_def)

theorem duplicate_delivery_acknowledged_witness:
  "fst (handler sample_env [delivery ''m2'' body_e1]
          (snd (handler sample_env [delivery ''m1'' body_e1] empty_table))) = []
   \<and> length (filter business_invoked
        (outcomes sample_env [delivery ''m1'' body_e1] empty_table
         @ outcomes sample_env [delivery ''m2'' body_e1]
             (snd (handler sample_env [delivery ''m1'' body_e1] empty_table)))) = 1
   \<and> outcomes sample_env [delivery ''m3'' body_e2, delivery ''m4'' body_e1]
        \<lparr>rows = [''e1'' \<mapsto> []], requests = 5\<rparr> ! 1 = DuplicateIgnored
   \<and> ''m4'' \<notin> set (fst (handler sample_env [delivery ''m3'' body_e2, delivery ''m4'' body_e1]
        \<lparr>rows = [''e1'' \<mapsto> []], requests = 5\<rparr>))"
proof -
  have avail: "\<forall>n. fault sample_env n = None" by (simp add: sample_env_def)
  have cf: "claim_fields (order_detail ''e1'' ''SKU-1'')" by (simp add: sample_claim_fields)
  note inst = duplicate_delivery_acknowledged [OF sample_configured avail cf sample_eventId]
  have first: "carried_detail sample_env (delivery ''m1'' body_e1) = Some (order_detail ''e1'' ''SKU-1'')
      \<and> carried_detail sample_env (delivery ''m2'' body_e1) = Some (order_detail ''e1'' ''SKU-1'')
      \<and> rows empty_table ''e1'' = None"
    by (simp add: sample_carried_e1 empty_table_def)
  have one: "fst (handler sample_env [delivery ''m2'' body_e1]
          (snd (handler sample_env [delivery ''m1'' body_e1] empty_table))) = []
   \<and> length (filter business_invoked
        (outcomes sample_env [delivery ''m1'' body_e1] empty_table
         @ outcomes sample_env [delivery ''m2'' body_e1]
             (snd (handler sample_env [delivery ''m1'' body_e1] empty_table)))) = 1"
    using inst [of empty_table, THEN conjunct2, rule_format, OF first] unfolding Let_def by blast
  have second: "distinct (map messageId [delivery ''m3'' body_e2, delivery ''m4'' body_e1])
      \<and> 1 < length [delivery ''m3'' body_e2, delivery ''m4'' body_e1]
      \<and> carried_detail sample_env ([delivery ''m3'' body_e2, delivery ''m4'' body_e1] ! 1)
          = Some (order_detail ''e1'' ''SKU-1'')
      \<and> rows \<lparr>rows = [''e1'' \<mapsto> []], requests = 5\<rparr> ''e1'' \<noteq> None"
    by (simp add: sample_carried_e1 delivery_messageId)
  have m4: "messageId ([delivery ''m3'' body_e2, delivery ''m4'' body_e1] ! 1) = ''m4''"
    by (simp add: delivery_messageId)
  have two: "outcomes sample_env [delivery ''m3'' body_e2, delivery ''m4'' body_e1]
        \<lparr>rows = [''e1'' \<mapsto> []], requests = 5\<rparr> ! 1 = DuplicateIgnored
   \<and> ''m4'' \<notin> set (fst (handler sample_env [delivery ''m3'' body_e2, delivery ''m4'' body_e1]
        \<lparr>rows = [''e1'' \<mapsto> []], requests = 5\<rparr>))"
    using inst [of "\<lparr>rows = [''e1'' \<mapsto> []], requests = 5\<rparr>", THEN conjunct1, rule_format, OF second]
    unfolding m4 by blast
  from one two show ?thesis by blast
qed

text \<open>
  Claim C2. The row is written before \<^verbatim>\<open>processOrder\<close> runs: when the claim of an
  envelope is new and \<^verbatim>\<open>processOrder\<close> then throws, the envelope is reported in
  \<^verbatim>\<open>batchItemFailures\<close> and the row is in the table all the same, so that every later
  delivery of the same \<^verbatim>\<open>eventId\<close> is a duplicate and is acknowledged, although
  \<^verbatim>\<open>processOrder\<close> never completed for it.
\<close>

theorem claim_persists_after_business_failure:
  assumes "configured env" and "\<forall>n. fault env n = None"
    and "claim_fields d" and "get d ''eventId'' = Str e" and "rows t e = None"
    and "carried_detail env r1 = Some d" and "processOrder d = Inl x"
  shows "fst (handler env [r1] t) = [messageId r1]
       \<and> outcomes env [r1] t = [ProcessFailed x]
       \<and> rows (snd (handler env [r1] t)) e = Some (Item (put_command env d (Date_now env (requests t))))
       \<and> (\<forall>Records i. distinct (map messageId Records) \<and> i < length Records
             \<and> carried_detail env (Records ! i) = Some d \<longrightarrow>
             outcomes env Records (snd (handler env [r1] t)) ! i = DuplicateIgnored
             \<and> messageId (Records ! i) \<notin> set (fst (handler env Records (snd (handler env [r1] t)))))"
proof -
  let ?t1 = "t\<lparr>requests := Suc (requests t),
        rows := (rows t)(e \<mapsto> Item (put_command env d (Date_now env (requests t))))\<rparr>"
  have first: "process_record env r1 t = (ProcessFailed x, ?t1)"
    using process_record_New [OF assms(1) _ assms(6,3,4,5)] assms(2,7) by simp
  then have t1: "snd (handler env [r1] t) = ?t1" by (simp add: handler_def)
  have present: "rows ?t1 e \<noteq> None" by simp
  have later: "outcomes env Records ?t1 ! i = DuplicateIgnored
             \<and> messageId (Records ! i) \<notin> set (fst (handler env Records ?t1))"
    if h: "distinct (map messageId Records) \<and> i < length Records
             \<and> carried_detail env (Records ! i) = Some d" for Records i
  proof -
    have "outcomes env Records ?t1 ! i = DuplicateIgnored"
      using assms(1,2,3,4) present h by (intro duplicate_in_batch) auto
    then show ?thesis using h by (simp add: handler_member)
  qed
  show ?thesis using first later by (simp add: handler_def t1)
qed

theorem claim_persists_after_business_failure_witness:
  "fst (handler sample_env [delivery ''m1'' body_e2] empty_table) = [''m1'']
   \<and> outcomes sample_env [delivery ''m2'' body_e2]
        (snd (handler sample_env [delivery ''m1'' body_e2] empty_table)) ! 0 = DuplicateIgnored
   \<and> ''m2'' \<notin> set (fst (handler sample_env [delivery ''m2'' body_e2]
        (snd (handler sample_env [delivery ''m1'' body_e2] empty_table))))"
proof -
  have avail: "\<forall>n. fault sample_env n = None" by (simp add: sample_env_def)
  have cf: "claim_fields (order_detail ''e2'' ''FAIL-ME'')" by (simp add: sample_claim_fields)
  have absent: "rows empty_table ''e2'' = None" by (simp add: empty_table_def)
  have fails: "processOrder (order_detail ''e2'' ''FAIL-ME'') = Inl FailureInjection"
    by (simp add: processOrder_def order_detail_def)
  note inst = claim_persists_after_business_failure
    [OF sample_configured avail cf sample_eventId absent sample_carried_e2 [of "''m1''"] fails]
  have redelivery: "distinct (map messageId [delivery ''m2'' body_e2])
      \<and> 0 < length [delivery ''m2'' body_e2]
      \<and> carried_detail sample_env ([delivery ''m2'' body_e2] ! 0) = Some (order_detail ''e2'' ''FAIL-ME'')"
    by (simp add: sample_carried_e2)
  have m1: "messageId (delivery ''m1'' body_e2) = ''m1''"
    and m2: "messageId ([delivery ''m2'' body_e2] ! 0) = ''m2''"
    by (simp_all add: delivery_messageId)
  have a: "fst (handler sample_env [delivery ''m1'' body_e2] empty_table) = [''m1'']"
    using inst unfolding m1 by blast
  have b: "outcomes sample_env [delivery ''m2'' body_e2]
        (snd (handler sample_env [delivery ''m1'' body_e2] empty_table)) ! 0 = DuplicateIgnored
   \<and> ''m2'' \<notin> set (fst (handler sample_env [delivery ''m2'' body_e2]
        (snd (handler sample_env [delivery ''m1'' body_e2] empty_table))))"
    using inst [THEN conjunct2, THEN conjunct2, THEN conjunct2, rule_format, OF redelivery]
    unfolding m2 by blast
  from a b show ?thesis by blast
qed

text \<open>
  Claim C3. For every batch, \<^verbatim>\<open>batchItemFailures\<close> holds the \<^verbatim>\<open>messageId\<close>s of exactly
  the records whose processing threw (in parsing, in the claim, or in \<^verbatim>\<open>processOrder\<close>),
  in order. Every record of the batch is processed, whatever happened to the records
  before it, and its outcome is that of processing it alone on the table the earlier
  records left. With distinct \<^verbatim>\<open>messageId\<close>s a record is reported exactly when its own
  outcome is neither a duplicate nor a success.
\<close>

theorem batch_failures_exact:
  "fst (handler env Records t)
     = map (messageId \<circ> fst) (filter (\<lambda>p. caught (snd p)) (zip Records (outcomes env Records t)))
   \<and> length (outcomes env Records t) = length Records
   \<and> (\<forall>i<length Records.
         outcomes env Records t ! i
           = fst (process_record env (Records ! i) (table_after env (take i Records) t))
         \<and> (distinct (map messageId Records) \<longrightarrow>
              (messageId (Records ! i) \<in> set (fst (handler env Records t))
               \<longleftrightarrow> outcomes env Records t ! i \<noteq> DuplicateIgnored
                   \<and> outcomes env Records t ! i \<noteq> Processed)))"
proof (intro conjI allI impI)
  show "fst (handler env Records t)
     = map (messageId \<circ> fst) (filter (\<lambda>p. caught (snd p)) (zip Records (outcomes env Records t)))"
    by (rule handler_failures)
  show "length (outcomes env Records t) = length Records"
    by (rule length_outcomes)
next
  fix i assume "i < length Records"
  then show "outcomes env Records t ! i
           = fst (process_record env (Records ! i) (table_after env (take i Records) t))"
    by (rule outcomes_nth)
next
  fix i assume "i < length Records" "distinct (map messageId Records)"
  then have "messageId (Records ! i) \<in> set (fst (handler env Records t))
      \<longleftrightarrow> caught (outcomes env Records t ! i)"
    by (simp add: handler_member)
  also have "\<dots> \<longleftrightarrow> outcomes env Records t ! i \<noteq> DuplicateIgnored
                   \<and> outcomes env Records t ! i \<noteq> Processed"
    by (cases "outcomes env Records t ! i") simp_all
  finally show "messageId (Records ! i) \<in> set (fst (handler env Records t))
               \<longleftrightarrow> outcomes env Records t ! i \<noteq> DuplicateIgnored
                   \<and> outcomes env Records t ! i \<noteq> Processed" .
qed

lemma sample_malformed: "process_record sample_env (delivery m ''not json'') t = (ParseFailed InvalidJson, t)"
  by (simp add: worker_eval)

lemma sample_success:
  "process_record sample_env (delivery m body_e1) empty_table =
     (Processed, \<lparr>rows = [''e1'' \<mapsto> Item (put_command sample_env (order_detail ''e1'' ''SKU-1'') 1700000000999)],
                  requests = 1\<rparr>)"
  by (simp add: worker_eval)

theorem batch_failures_exact_witness:
  "fst (handler sample_env [delivery ''m1'' ''not json'', delivery ''m2'' body_e1] empty_table) = [''m1'']
   \<and> ''m2'' \<notin> set (fst (handler sample_env [delivery ''m1'' ''not json'', delivery ''m2'' body_e1] empty_table))"
proof -
  let ?batch = "[delivery ''m1'' ''not json'', delivery ''m2'' body_e1]"
  have os: "outcomes sample_env ?batch empty_table = [ParseFailed InvalidJson, Processed]"
    by (simp add: sample_malformed sample_success)
  note inst = batch_failures_exact [of sample_env ?batch empty_table]
  from inst
  have "fst (handler sample_env ?batch empty_table)
     = map (messageId \<circ> fst) (filter (\<lambda>p. caught (snd p))
         (zip ?batch (outcomes sample_env ?batch empty_table)))"
    by blast
  then have one: "fst (handler sample_env ?batch empty_table) = [''m1'']"
    unfolding os by (simp add: delivery_messageId)
  have "1 < length ?batch" and d: "distinct (map messageId ?batch)"
    by (simp_all add: delivery_messageId)
  with inst have "messageId (?batch ! 1) \<in> set (fst (handler sample_env ?batch empty_table))
      \<longleftrightarrow> outcomes sample_env ?batch empty_table ! 1 \<noteq> DuplicateIgnored
          \<and> outcomes sample_env ?batch empty_table ! 1 \<noteq> Processed"
    by blast
  then have two: "''m2'' \<notin> set (fst (handler sample_env ?batch empty_table))"
    unfolding os by (simp add: delivery_messageId)
  from one two show ?thesis by blast
qed

text \<open>
  Claim C4. As stated the claim fails: \<^verbatim>\<open>parseEventBridgeEnvelope\<close> accepts an
  envelope whose detail is not an Order Event of the specification (here a detail with
  none of the required fields).
\<close>

theorem parse_checks_envelope_only_counterexample:
  "parseEventBridgeEnvelope sample_env (delivery ''m1'' body_bare) = Inr (envelope_of (Obj [(''note'', Str ''x'')]))
   \<and> \<not> spec_order_event (get (envelope_of (Obj [(''note'', Str ''x'')])) ''detail'')"
  by (simp add: worker_eval spec_order_event_def)

text \<open>
  Claim C4, amended. Parsing succeeds exactly when the body is not empty, is JSON, and
  the value has truthy \<^verbatim>\<open>detail\<close>, \<^verbatim>\<open>detail-type\<close> and \<^verbatim>\<open>source\<close>; it then returns that
  value, with no check of the fields of the detail. It is the first step for a record
  and has no effect: when it fails the record is reported and the table is as before.
\<close>

theorem parse_checks_envelope_only:
  "((\<exists>envelope. parseEventBridgeEnvelope env record = Inr envelope) \<longleftrightarrow>
      body record \<noteq> []
      \<and> (\<exists>envelope. JSON_parse env (body record) = Some envelope
            \<and> truthy (get envelope ''detail'') \<and> truthy (get envelope ''detail-type'')
            \<and> truthy (get envelope ''source'')))
   \<and> (\<forall>envelope. parseEventBridgeEnvelope env record = Inr envelope \<longrightarrow>
         JSON_parse env (body record) = Some envelope)
   \<and> (\<forall>e. parseEventBridgeEnvelope env record = Inl e \<longrightarrow>
         process_record env record t = (ParseFailed e, t)
         \<and> fst (handler env [record] t) = [messageId record])"
proof -
  have nullish_get: "nullish v \<Longrightarrow> get v k = Undefined" for v k
    by (cases v) simp_all
  show ?thesis
    by (auto simp: parseEventBridgeEnvelope_def process_record_def handler_def nullish_get
             split: option.splits if_splits)
qed

theorem parse_checks_envelope_only_witness:
  "parseEventBridgeEnvelope sample_env (delivery ''m1'' []) = Inl EmptyBody
   \<and> process_record sample_env (delivery ''m1'' []) empty_table = (ParseFailed EmptyBody, empty_table)
   \<and> fst (handler sample_env [delivery ''m1'' []] empty_table) = [''m1'']
   \<and> (\<exists>envelope. parseEventBridgeEnvelope sample_env (delivery ''m2'' body_bare) = Inr envelope)"
proof -
  have p: "parseEventBridgeEnvelope sample_env (delivery ''m1'' []) = Inl EmptyBody"
    by (simp add: parseEventBridgeEnvelope_def delivery_def)
  from parse_checks_envelope_only [of sample_env "delivery ''m1'' []" empty_table,
      THEN conjunct2, THEN conjunct2, rule_format, OF p] p
  have one: "parseEventBridgeEnvelope sample_env (delivery ''m1'' []) = Inl EmptyBody
   \<and> process_record sample_env (delivery ''m1'' []) empty_table = (ParseFailed EmptyBody, empty_table)
   \<and> fst (handler sample_env [delivery ''m1'' []] empty_table) = [''m1'']"
    by (simp add: delivery_messageId)
  have "body (delivery ''m2'' body_bare) \<noteq> []
      \<and> (\<exists>envelope. JSON_parse sample_env (body (delivery ''m2'' body_bare)) = Some envelope
            \<and> truthy (get envelope ''detail'') \<and> truthy (get envelope ''detail-type'')
            \<and> truthy (get envelope ''source''))"
    by (simp add: delivery_def sample_env_def sample_parse_def body_e1_def body_e2_def body_bare_def
          envelope_of_def)
  with parse_checks_envelope_only [of sample_env "delivery ''m2'' body_bare" empty_table]
  have two: "\<exists>envelope. parseEventBridgeEnvelope sample_env (delivery ''m2'' body_bare) = Inr envelope"
    by blast
  from one two show ?thesis by blast
qed

lemma process_record_store_error:
  assumes "\<not> TABLE_NAME_unset env" "carried_detail env r = Some d"
    and "dynamo_send env (put_command env d (Date_now env (requests t))) t = (Inl e, t')"
    and "\<not> conditional_check_failed e"
  shows "process_record env r t = (ClaimFailed (Thrown e), t')"
proof -
  from carried_detailD [OF assms(2)] obtain envelope
    where p: "parseEventBridgeEnvelope env r = Inr envelope" "get envelope ''detail'' = d" by blast
  then have "truthy d"
    by (auto simp: parseEventBridgeEnvelope_def split: if_splits option.splits)
  then have "\<not> nullish d" by (cases d) simp_all
  with assms p show ?thesis
    by (simp add: process_record_def recordIdempotency_def)
qed

lemma claim_evaluated:
  assumes "configured env" "fault env (requests t) = None" "carried_detail env r = Some d" "claim_fields d"
  shows "\<forall>x. fst (process_record env r t) \<noteq> ParseFailed x \<and> fst (process_record env r t) \<noteq> ClaimFailed x"
proof -
  from assms(4) obtain e where e: "get d ''eventId'' = Str e"
    by (auto simp: claim_fields_def split: js.splits)
  show ?thesis
  proof (cases "rows t e")
    case None
    from process_record_New [OF assms(1,2,3,4) e None] show ?thesis
      by (simp split: sum.splits)
  next
    case (Some it)
    then have "rows t e \<noteq> None" by simp
    from process_record_Duplicate [OF assms(1,2,3,4) e this] show ?thesis by simp
  qed
qed

text \<open>
  Claim C5. When the table request of an envelope throws anything but the conditional
  check failure, the claim is neither new nor duplicate: the error is the outcome of
  the envelope, \<^verbatim>\<open>processOrder\<close> is not called, no row is written, and the envelope is
  reported in \<^verbatim>\<open>batchItemFailures\<close> wherever it stands in a batch. A later delivery on
  an available table has its claim evaluated.
\<close>

theorem store_error_fails_envelope:
  assumes "\<not> TABLE_NAME_unset env" and "carried_detail env r = Some d"
    and "dynamo_send env (put_command env d (Date_now env (requests t))) t = (Inl e, t')"
    and "\<not> conditional_check_failed e"
  shows "process_record env r t = (ClaimFailed (Thrown e), t')
       \<and> \<not> business_invoked (fst (process_record env r t))
       \<and> rows t' = rows t
       \<and> (\<forall>before after t0. table_after env before t0 = t \<longrightarrow>
            outcomes env (before @ r # after) t0 ! length before = ClaimFailed (Thrown e)
            \<and> messageId r \<in> set (fst (handler env (before @ r # after) t0)))
       \<and> (\<forall>r'. configured env \<and> fault env (requests t') = None \<and> claim_fields d
                 \<and> carried_detail env r' = Some d \<longrightarrow>
            (\<forall>x. fst (process_record env r' t') \<noteq> ClaimFailed x))"
proof (intro conjI allI impI)
  show pr: "process_record env r t = (ClaimFailed (Thrown e), t')"
    using assms by (rule process_record_store_error)
  then show "\<not> business_invoked (fst (process_record env r t))" by simp
  from dynamo_send_error [OF assms(3)] show "rows t' = rows t" by simp
  {
    fix before after t0
    assume h: "table_after env before t0 = t"
    then have o: "outcomes env (before @ r # after) t0 = outcomes env before t0 @ ClaimFailed (Thrown e) # outcomes env after t'"
      using pr by (simp add: outcomes_append)
    then show "outcomes env (before @ r # after) t0 ! length before = ClaimFailed (Thrown e)"
      by (simp add: nth_append length_outcomes)
    have "(r, ClaimFailed (Thrown e)) \<in> set (zip (before @ r # after) (outcomes env (before @ r # after) t0))"
      unfolding o by (simp add: length_outcomes)
    then show "messageId r \<in> set (fst (handler env (before @ r # after) t0))"
      unfolding handler_failures by force
  }
  {
    fix r' x
    assume "configured env \<and> fault env (requests t') = None \<and> claim_fields d \<and> carried_detail env r' = Some d"
    then show "fst (process_record env r' t') \<noteq> ClaimFailed x"
      using claim_evaluated [of env t' r' d] by blast
  }
qed

theorem store_error_fails_envelope_witness:
  "process_record flaky_env (delivery ''m1'' body_e1) empty_table
     = (ClaimFailed (Thrown (SdkError ''TimeoutError'')), \<lparr>rows = Map.empty, requests = 1\<rparr>)
   \<and> ''m1'' \<in> set (fst (handler flaky_env ([] @ delivery ''m1'' body_e1 # [delivery ''m2'' body_e1]) empty_table))
   \<and> fst (process_record flaky_env (delivery ''m3'' body_e1) \<lparr>rows = Map.empty, requests = 1\<rparr>)
       \<noteq> ClaimFailed (Thrown (SdkError ''TimeoutError''))"
proof -
  have a: "\<not> TABLE_NAME_unset flaky_env" by (simp add: worker_eval)
  have b: "carried_detail flaky_env (delivery m body_e1) = Some (order_detail ''e1'' ''SKU-1'')" for m
    by (simp add: worker_eval)
  have c: "dynamo_send flaky_env (put_command flaky_env (order_detail ''e1'' ''SKU-1'')
              (Date_now flaky_env (requests empty_table))) empty_table
           = (Inl (SdkError ''TimeoutError''), \<lparr>rows = Map.empty, requests = 1\<rparr>)"
    by (simp add: dynamo_send_def flaky_env_def empty_table_def)
  have d: "\<not> conditional_check_failed (SdkError ''TimeoutError'')"
    by (simp add: conditional_check_failed_def)
  have e: "table_after flaky_env [] empty_table = empty_table" by simp
  have cfg: "configured flaky_env" by (simp add: worker_eval)
  have ok: "fault flaky_env (requests \<lparr>rows = Map.empty, requests = 1\<rparr>) = None"
    by (simp add: flaky_env_def)
  have later: "configured flaky_env \<and> fault flaky_env (requests \<lparr>rows = Map.empty, requests = 1\<rparr>) = None
      \<and> claim_fields (order_detail ''e1'' ''SKU-1'')
      \<and> carried_detail flaky_env (delivery ''m3'' body_e1) = Some (order_detail ''e1'' ''SKU-1'')"
    using b [of "''m3''"] cfg ok by (simp add: sample_claim_fields)
  note inst = store_error_fails_envelope [OF a b c d]
  from inst have one: "process_record flaky_env (delivery ''m1'' body_e1) empty_table
     = (ClaimFailed (Thrown (SdkError ''TimeoutError'')), \<lparr>rows = Map.empty, requests = 1\<rparr>)"
    by blast
  from inst [THEN conjunct2, THEN conjunct2, THEN conjunct2, THEN conjunct1, rule_format, OF e,
             of "''m1''" "[delivery ''m2'' body_e1]"]
  have two: "messageId (delivery ''m1'' body_e1)
     \<in> set (fst (handler flaky_env ([] @ delivery ''m1'' body_e1 # [delivery ''m2'' body_e1]) empty_table))"
    by blast
  from inst [of "''m1''", THEN conjunct2, THEN conjunct2, THEN conjunct2, THEN conjunct2, rule_format, OF later]
  have three: "fst (process_record flaky_env (delivery ''m3'' body_e1) \<lparr>rows = Map.empty, requests = 1\<rparr>)
       \<noteq> ClaimFailed (Thrown (SdkError ''TimeoutError''))" .
  from one two three show ?thesis unfolding delivery_messageId by blast
qed










section \<open>Replay tool: properties\<close>

lemma round_continues_Suc:
  "round_continues env (Suc k) p = round_continues env k (next_round env p)"
  by (simp add: round_continues_def)

lemma round_exit_Suc:
  "round_exit env (Suc k) p = round_exit env k (next_round env p)"
  by (simp add: round_exit_def split: prod.splits sum.splits)

lemma drain_stop:
  "\<not> round_continues env 0 (tot, st) \<Longrightarrow> drain env tot st = Some (round_exit env 0 (tot, st))"
  by (subst drain.simps) (auto simp: round_continues_def round_exit_def split: prod.splits sum.splits)

lemma drain_continue:
  "round_continues env 0 (tot, st) \<Longrightarrow>
   drain env tot st = drain env (fst (next_round env (tot, st))) (snd (next_round env (tot, st)))"
  by (subst drain.simps) (auto simp: round_continues_def next_round_def split: prod.splits sum.splits)

lemma drain_exits_at:
  "\<forall>i<k. round_continues env i (tot, st) \<Longrightarrow> \<not> round_continues env k (tot, st) \<Longrightarrow>
   drain env tot st = Some (round_exit env k (tot, st))"
proof (induction k arbitrary: tot st)
  case 0
  then show ?case by (simp add: drain_stop)
next
  case (Suc k)
  obtain tot' st' where n: "next_round env (tot, st) = (tot', st')"
    by (cases "next_round env (tot, st)")
  from Suc.prems(1) have c0: "round_continues env 0 (tot, st)" by blast
  have "round_continues env i (tot', st')" if "i < k" for i
    using Suc.prems(1) [rule_format, of "Suc i"] that by (simp add: round_continues_Suc n)
  then have "\<forall>i<k. round_continues env i (tot', st')" by blast
  moreover have "\<not> round_continues env k (tot', st')"
    using Suc.prems(2) by (simp add: round_continues_Suc n)
  ultimately have "drain env tot' st' = Some (round_exit env k (tot', st'))"
    by (rule Suc.IH)
  then show ?case using drain_continue [OF c0] by (simp add: n round_exit_Suc)
qed

lemma round_continues_0:
  "round_continues env 0 (tot, st) = (case fst (replayOnce env st) of Inl e \<Rightarrow> False | Inr n \<Rightarrow> 0 < n)"
  by (simp add: round_continues_def)

lemma drain_returns_exit:
  assumes "drain env tot st = Some r"
  shows "\<exists>k. (\<forall>i<k. round_continues env i (tot, st)) \<and> \<not> round_continues env k (tot, st)
        \<and> r = round_exit env k (tot, st)"
  using assms
proof (induction env tot st r rule: drain.raw_induct [rotated 1, consumes 1, case_names step])
  case (step drain env tot st r)
  obtain res st1 where ro: "replayOnce env st = (res, st1)"
    by (cases "replayOnce env st")
  have stop: ?case if "\<not> round_continues env 0 (tot, st)" "r = round_exit env 0 (tot, st)"
    using that by (intro exI [of _ 0]) simp
  show ?case
  proof (cases res)
    case (Inl e)
    with ro step(2) have "r = (Inl e, st1)" by simp
    with ro Inl show ?thesis
      by (intro stop) (simp_all add: round_continues_0 round_exit_def)
  next
    case (Inr n)
    show ?thesis
    proof (cases "n = 0")
      case True
      with ro Inr step(2) have "r = (Inr tot, st1)" by simp
      with ro Inr True show ?thesis
        by (intro stop) (simp_all add: round_continues_0 round_exit_def)
    next
      case False
      let ?st' = "st1\<lparr>console := console st1 @ [LogBatch n (tot + n)]\<rparr>"
      have n: "next_round env (tot, st) = (tot + n, ?st')"
        using ro Inr by (simp add: next_round_def)
      have c0: "round_continues env 0 (tot, st)"
        using ro Inr False by (simp add: round_continues_0)
      from ro Inr False step(2) have "drain env (tot + n) ?st' = Some r" by simp
      from step(1) [OF this] obtain k where k: "\<forall>i<k. round_continues env i (tot + n, ?st')"
        "\<not> round_continues env k (tot + n, ?st')" "r = round_exit env k (tot + n, ?st')" by blast
      have "\<forall>i<Suc k. round_continues env i (tot, st)"
      proof (intro allI impI)
        fix i assume "i < Suc k"
        then show "round_continues env i (tot, st)"
          using c0 k(1) by (cases i) (simp_all add: round_continues_Suc n)
      qed
      moreover have "\<not> round_continues env (Suc k) (tot, st)"
        using k(2) by (simp add: round_continues_Suc n)
      moreover have "r = round_exit env (Suc k) (tot, st)"
        using k(3) by (simp add: round_exit_Suc n)
      ultimately show ?thesis by blast
    qed
  qed
qed

lemma forwarded_Nil: "forwarded env h [] = []"
  by (simp add: forwarded_def)

lemma calls_before_Cons:
  "calls_before env h (m # ms) (Suc i) =
     calls_before env (if incomplete m then h else h @ [SendMessage (MAIN_QUEUE_URL env) (str (Body m))]) ms i"
  by (simp add: calls_before_def)

lemma forwarded_at_Suc:
  "forwarded_at env h (m # ms) (Suc i) =
     forwarded_at env (if incomplete m then h else h @ [SendMessage (MAIN_QUEUE_URL env) (str (Body m))]) ms i"
  by (simp add: forwarded_at_def calls_before_Cons)

lemma forwarded_at_0:
  "forwarded_at env h (m # ms) 0 = (\<not> incomplete m \<and> on_send env h (str (Body m)) = Inr ())"
  by (simp add: forwarded_at_def calls_before_def)

lemma forwarded_Cons:
  "forwarded env h (m # ms) =
     (if forwarded_at env h (m # ms) 0 then [m] else [])
     @ forwarded env (if incomplete m then h else h @ [SendMessage (MAIN_QUEUE_URL env) (str (Body m))]) ms"
proof -
  have upt: "[0..<length (m # ms)] = 0 # map Suc [0..<length ms]"
    by (simp del: upt_Suc add: upt_conv_Cons map_Suc_upt)
  show ?thesis
    unfolding forwarded_def upt
    by (simp add: filter_map comp_def forwarded_at_Suc)
qed

lemma forward_loop_result:
  "forward_loop env ms c del st =
     (c + length (forwarded env (calls st) ms), del @ forwarded env (calls st) ms,
      snd (snd (forward_loop env ms c del st)))"
proof (induction ms arbitrary: c del st)
  case Nil
  then show ?case by (simp add: forwarded_Nil)
next
  case (Cons m ms)
  show ?case
  proof (cases "incomplete m")
    case True
    then show ?thesis
      using Cons.IH [of c del st] by (simp add: forwarded_Cons forwarded_at_0)
  next
    case False
    show ?thesis
    proof (cases "on_send env (calls st) (str (Body m))")
      case (Inl e)
      let ?st' = "st\<lparr>calls := calls st @ [SendMessage (MAIN_QUEUE_URL env) (str (Body m))],
                      console := console st @ [LogSendFailed (str (MessageId m)) e]\<rparr>"
      from Cons.IH [of c del ?st'] False Inl show ?thesis
        by (simp add: forwarded_Cons forwarded_at_0 send_message_def)
    next
      case (Inr u)
      let ?st' = "st\<lparr>calls := calls st @ [SendMessage (MAIN_QUEUE_URL env) (str (Body m))]\<rparr>"
      from Cons.IH [of "c + 1" "del @ [m]" ?st'] False Inr show ?thesis
        by (simp add: forwarded_Cons forwarded_at_0 send_message_def)
    qed
  qed
qed

lemma forward_loop_calls:
  "calls (snd (snd (forward_loop env ms c del st))) =
     calls st @ map (\<lambda>m. SendMessage (MAIN_QUEUE_URL env) (str (Body m))) (filter (\<lambda>m. \<not> incomplete m) ms)"
proof (induction ms arbitrary: c del st)
  case Nil
  then show ?case by simp
next
  case (Cons m ms)
  show ?case
  proof (cases "incomplete m")
    case True
    then show ?thesis using Cons.IH [of c del st] by simp
  next
    case False
    show ?thesis
    proof (cases "on_send env (calls st) (str (Body m))")
      case (Inl e)
      with False Cons.IH show ?thesis by (simp add: send_message_def)
    next
      case (Inr u)
      with False Cons.IH show ?thesis by (simp add: send_message_def)
    qed
  qed
qed

lemma forward_loop_skips:
  "forward_loop env ms c del st = forward_loop env (filter (\<lambda>m. \<not> incomplete m) ms) c del st"
  by (induction ms arbitrary: c del st) (auto split: prod.splits sum.splits)

lemma replayOnce_receive_throws:
  "on_receive env (calls st) = Inl e \<Longrightarrow>
   replayOnce env st = (Inl e, st\<lparr>calls := calls st @ [receiveCommand env]\<rparr>)"
  by (simp add: replayOnce_def receive_message_def)

lemma replayOnce_answer:
  assumes "on_receive env (calls st) = Inr answer"
  defines "messages \<equiv> (case answer of None \<Rightarrow> [] | Some ms \<Rightarrow> ms)"
  defines "h \<equiv> calls st @ [receiveCommand env]"
  defines "sends \<equiv> map (\<lambda>m. SendMessage (MAIN_QUEUE_URL env) (str (Body m)))
                       (filter (\<lambda>m. \<not> incomplete m) messages)"
  defines "F \<equiv> forwarded env h messages"
  defines "st2 \<equiv> snd (snd (forward_loop env messages 0 [] (st\<lparr>calls := h\<rparr>)))"
  shows "replayOnce env st =
    (if F = [] then (Inr 0, st2)
     else case on_delete env (h @ sends) (map delete_entry F) of
       Inl e \<Rightarrow> (Inl e, st2\<lparr>calls := h @ sends @ [DeleteMessageBatch (DLQ_URL env) (map delete_entry F)]\<rparr>)
     | Inr deleteResult_Failed \<Rightarrow>
         (Inr (length F),
          st2\<lparr>calls := h @ sends @ [DeleteMessageBatch (DLQ_URL env) (map delete_entry F)],
              console := console st2 @
                (case deleteResult_Failed of None \<Rightarrow> []
                 | Some failed \<Rightarrow> if failed = [] then [] else [LogDeleteFailed (length failed)])\<rparr>))"
    and "calls st2 = h @ sends"
proof -
  let ?st1 = "st\<lparr>calls := h\<rparr>"
  show c2: "calls st2 = h @ sends"
    by (simp add: st2_def sends_def forward_loop_calls)
  have fl: "forward_loop env messages 0 [] ?st1 = (length F, F, st2)"
    using forward_loop_result [of env messages 0 "[]" ?st1] by (simp add: F_def st2_def)
  have rm: "receive_message env st = (Inr answer, ?st1)"
    using assms(1) by (simp add: receive_message_def h_def)
  have dm: "delete_message_batch env entries st2 =
      (on_delete env (h @ sends) entries, st2\<lparr>calls := h @ sends @ [DeleteMessageBatch (DLQ_URL env) entries]\<rparr>)"
    for entries by (simp add: delete_message_batch_def c2)
  show "replayOnce env st =
    (if F = [] then (Inr 0, st2)
     else case on_delete env (h @ sends) (map delete_entry F) of
       Inl e \<Rightarrow> (Inl e, st2\<lparr>calls := h @ sends @ [DeleteMessageBatch (DLQ_URL env) (map delete_entry F)]\<rparr>)
     | Inr deleteResult_Failed \<Rightarrow>
         (Inr (length F),
          st2\<lparr>calls := h @ sends @ [DeleteMessageBatch (DLQ_URL env) (map delete_entry F)],
              console := console st2 @
                (case deleteResult_Failed of None \<Rightarrow> []
                 | Some failed \<Rightarrow> if failed = [] then [] else [LogDeleteFailed (length failed)])\<rparr>))"
  proof (cases "messages = []")
    case True
    then have "F = []" "st2 = ?st1" by (simp_all add: F_def st2_def forwarded_Nil)
    with True show ?thesis
      unfolding replayOnce_def rm by (simp add: messages_def [symmetric])
  next
    case False
    show ?thesis
    proof (cases "F = []")
      case True
      with False show ?thesis
        unfolding replayOnce_def rm by (simp add: messages_def [symmetric] fl)
    next
      case nonempty: False
      with False show ?thesis
        unfolding replayOnce_def rm
        by (auto simp: messages_def [symmetric] fl dm split: sum.splits option.splits)
    qed
  qed
qed

lemma forwarded_entry_member:
  assumes "distinct (map delete_entry ms)" "i < length ms"
  shows "delete_entry (ms ! i) \<in> set (map delete_entry (forwarded env h ms)) \<longleftrightarrow> forwarded_at env h ms i"
proof
  assume "delete_entry (ms ! i) \<in> set (map delete_entry (forwarded env h ms))"
  then obtain j where j: "j < length ms" "forwarded_at env h ms j" "delete_entry (ms ! j) = delete_entry (ms ! i)"
    by (auto simp: forwarded_def)
  with assms have "j = i"
    by (metis distinct_conv_nth length_map nth_map)
  with j show "forwarded_at env h ms i" by simp
next
  assume "forwarded_at env h ms i"
  with assms(2) have "ms ! i \<in> set (forwarded env h ms)"
    by (auto simp: forwarded_def)
  then show "delete_entry (ms ! i) \<in> set (map delete_entry (forwarded env h ms))" by simp
qed

text \<open>
  Claim C7. In one call of \<^verbatim>\<open>replayOnce\<close> that received a batch, the requests sent
  are the receive, one \<^verbatim>\<open>SendMessage\<close> for each complete message, in order, and then,
  if at least one send succeeded, one \<^verbatim>\<open>DeleteMessageBatch\<close> whose entries are
  exactly the messages whose send succeeded: no delete is sent before the sends and
  none for a message that was not forwarded. When the batch delete reports failed
  entries, a warning with their number is printed, the call still returns the number
  of forwarded messages, and no second delete is sent.
\<close>

theorem replay_deletes_exactly_forwarded:
  assumes "on_receive env (calls st) = Inr answer"
  shows "let messages = (case answer of None \<Rightarrow> [] | Some ms \<Rightarrow> ms);
             h = calls st @ [receiveCommand env];
             sends = map (\<lambda>m. SendMessage (MAIN_QUEUE_URL env) (str (Body m)))
                       (filter (\<lambda>m. \<not> incomplete m) messages);
             F = forwarded env h messages
         in calls (snd (replayOnce env st))
              = h @ sends @ (if F = [] then [] else [DeleteMessageBatch (DLQ_URL env) (map delete_entry F)])
            \<and> (distinct (map delete_entry messages) \<longrightarrow>
                 (\<forall>i<length messages.
                    delete_entry (messages ! i) \<in> set (map delete_entry F) \<longleftrightarrow> forwarded_at env h messages i))
            \<and> (F = [] \<longrightarrow> fst (replayOnce env st) = Inr 0)
            \<and> (\<forall>e. F \<noteq> [] \<and> on_delete env (h @ sends) (map delete_entry F) = Inl e \<longrightarrow>
                  fst (replayOnce env st) = Inl e)
            \<and> (\<forall>failed. F \<noteq> [] \<and> on_delete env (h @ sends) (map delete_entry F) = Inr failed \<longrightarrow>
                  fst (replayOnce env st) = Inr (length F)
                  \<and> console (snd (replayOnce env st))
                      = console (snd (snd (forward_loop env messages 0 [] (st\<lparr>calls := h\<rparr>))))
                        @ (case failed of None \<Rightarrow> []
                           | Some ids \<Rightarrow> if ids = [] then [] else [LogDeleteFailed (length ids)]))"
proof -
  note ro = replayOnce_answer(1) [OF assms] and c2 = replayOnce_answer(2) [OF assms]
  show ?thesis
    unfolding Let_def
  proof (intro conjI allI impI)
    fix i
    assume "distinct (map delete_entry (case answer of None \<Rightarrow> [] | Some ms \<Rightarrow> ms))"
      and "i < length (case answer of None \<Rightarrow> [] | Some ms \<Rightarrow> ms)"
    then show "delete_entry ((case answer of None \<Rightarrow> [] | Some ms \<Rightarrow> ms) ! i)
        \<in> set (map delete_entry (forwarded env (calls st @ [receiveCommand env])
                  (case answer of None \<Rightarrow> [] | Some ms \<Rightarrow> ms)))
       \<longleftrightarrow> forwarded_at env (calls st @ [receiveCommand env])
             (case answer of None \<Rightarrow> [] | Some ms \<Rightarrow> ms) i"
      by (rule forwarded_entry_member)
  qed (simp_all add: ro forward_loop_calls split: sum.splits)
qed

lemmas replay_eval =
  replayOnce_def receive_message_def send_message_def delete_message_batch_def incomplete_def
  missing_def str_def delete_entry_def MAIN_QUEUE_URL_def DLQ_URL_def
  sample_replay_env_def stuck_replay_env_def headless_replay_env_def fresh_run_def dlq_message_def Let_def

lemma sample_receiveCommand:
  "receiveCommand sample_replay_env = ReceiveMessage ''dlq'' 10 1 30"
  "receiveCommand stuck_replay_env = ReceiveMessage ''dlq'' 10 1 30"
  "receiveCommand headless_replay_env = ReceiveMessage ''dlq'' 10 1 30"
  unfolding receiveCommand_def DLQ_URL_def str_def
  by (simp_all add: sample_replay_env_def stuck_replay_env_def headless_replay_env_def)

lemma sample_round_1:
  "replayOnce sample_replay_env fresh_run =
     (Inr 2, \<lparr>calls = [receiveCommand sample_replay_env, SendMessage ''main'' ''b1'',
                        SendMessage ''main'' ''b3'', SendMessage ''main'' ''b4'',
                        DeleteMessageBatch ''dlq'' [(''id-1'', ''rh-1''), (''id-4'', ''rh-4'')]],
               console = [LogSendFailed ''id-3'' (SdkError ''ServiceUnavailable''), LogDeleteFailed 1]\<rparr>)"
  by (simp add: replay_eval)

lemma sample_round_2:
  "replayOnce sample_replay_env
     \<lparr>calls = [receiveCommand sample_replay_env, SendMessage ''main'' ''b1'',
               SendMessage ''main'' ''b3'', SendMessage ''main'' ''b4'',
               DeleteMessageBatch ''dlq'' [(''id-1'', ''rh-1''), (''id-4'', ''rh-4'')]],
      console = [LogSendFailed ''id-3'' (SdkError ''ServiceUnavailable''), LogDeleteFailed 1, LogBatch 2 2]\<rparr> =
     (Inr 0, \<lparr>calls = [receiveCommand sample_replay_env, SendMessage ''main'' ''b1'',
                        SendMessage ''main'' ''b3'', SendMessage ''main'' ''b4'',
                        DeleteMessageBatch ''dlq'' [(''id-1'', ''rh-1''), (''id-4'', ''rh-4'')],
                        receiveCommand sample_replay_env],
               console = [LogSendFailed ''id-3'' (SdkError ''ServiceUnavailable''), LogDeleteFailed 1, LogBatch 2 2]\<rparr>)"
  by (simp add: replay_eval)

theorem replay_deletes_exactly_forwarded_witness:
  "calls (snd (replayOnce sample_replay_env fresh_run)) =
     [ReceiveMessage ''dlq'' 10 1 30, SendMessage ''main'' ''b1'', SendMessage ''main'' ''b3'',
      SendMessage ''main'' ''b4'', DeleteMessageBatch ''dlq'' [(''id-1'', ''rh-1''), (''id-4'', ''rh-4'')]]
   \<and> fst (replayOnce sample_replay_env fresh_run) = Inr 2
   \<and> last (console (snd (replayOnce sample_replay_env fresh_run))) = LogDeleteFailed 1"
proof -
  let ?ms = "[dlq_message ''1'' (Some ''b1''), dlq_message ''2'' None, dlq_message ''3'' (Some ''b3''),
              dlq_message ''4'' (Some ''b4'')]"
  have answer: "on_receive sample_replay_env (calls fresh_run) = Inr (Some ?ms)"
    by (simp add: sample_replay_env_def fresh_run_def)
  have F: "forwarded sample_replay_env (calls fresh_run @ [receiveCommand sample_replay_env]) ?ms
           = [dlq_message ''1'' (Some ''b1''), dlq_message ''4'' (Some ''b4'')]"
    by (simp add: forwarded_Cons forwarded_Nil forwarded_at_0 replay_eval)
  from replay_deletes_exactly_forwarded [OF answer]
  have "calls (snd (replayOnce sample_replay_env fresh_run)) =
      (calls fresh_run @ [receiveCommand sample_replay_env])
      @ map (\<lambda>m. SendMessage (MAIN_QUEUE_URL sample_replay_env) (str (Body m)))
          (filter (\<lambda>m. \<not> incomplete m) ?ms)
      @ (if forwarded sample_replay_env (calls fresh_run @ [receiveCommand sample_replay_env]) ?ms = []
         then []
         else [DeleteMessageBatch (DLQ_URL sample_replay_env)
                 (map delete_entry (forwarded sample_replay_env
                    (calls fresh_run @ [receiveCommand sample_replay_env]) ?ms))])"
    unfolding Let_def by simp
  then have one: "calls (snd (replayOnce sample_replay_env fresh_run)) =
     [ReceiveMessage ''dlq'' 10 1 30, SendMessage ''main'' ''b1'', SendMessage ''main'' ''b3'',
      SendMessage ''main'' ''b4'', DeleteMessageBatch ''dlq'' [(''id-1'', ''rh-1''), (''id-4'', ''rh-4'')]]"
    unfolding F sample_receiveCommand [symmetric]
    by (simp add: incomplete_def missing_def str_def delete_entry_def MAIN_QUEUE_URL_def DLQ_URL_def
          sample_replay_env_def fresh_run_def dlq_message_def)
  have failed: "forwarded sample_replay_env (calls fresh_run @ [receiveCommand sample_replay_env]) ?ms \<noteq> []
      \<and> on_delete sample_replay_env
          ((calls fresh_run @ [receiveCommand sample_replay_env])
           @ map (\<lambda>m. SendMessage (MAIN_QUEUE_URL sample_replay_env) (str (Body m)))
               (filter (\<lambda>m. \<not> incomplete m) ?ms))
          (map delete_entry (forwarded sample_replay_env
              (calls fresh_run @ [receiveCommand sample_replay_env]) ?ms))
        = Inr (Some [''id-4''])"
    unfolding F by (simp add: sample_replay_env_def)
  have two: "fst (replayOnce sample_replay_env fresh_run) = Inr 2
      \<and> last (console (snd (replayOnce sample_replay_env fresh_run))) = LogDeleteFailed 1"
    using replay_deletes_exactly_forwarded [OF answer] failed unfolding Let_def
    by (simp add: F)
  from one two show ?thesis by blast
qed

text \<open>
  Claim C8. As stated the claim fails: the loop of \<^verbatim>\<open>main\<close> exits after a receive
  that returned a message, when the send of that message failed.
\<close>

theorem drain_exit_rounds_counterexample:
  "drain stuck_replay_env 0 fresh_run =
     Some (Inr 0, \<lparr>calls = [ReceiveMessage ''dlq'' 10 1 30, SendMessage ''main'' ''b1''],
                   console = [LogSendFailed ''id-1'' (SdkError ''ServiceUnavailable'')]\<rparr>)
   \<and> on_receive stuck_replay_env (calls fresh_run) = Inr (Some [dlq_message ''1'' (Some ''b1'')])"
proof -
  have ro: "replayOnce stuck_replay_env fresh_run =
     (Inr 0, \<lparr>calls = [receiveCommand stuck_replay_env, SendMessage ''main'' ''b1''],
                   console = [LogSendFailed ''id-1'' (SdkError ''ServiceUnavailable'')]\<rparr>)"
    by (simp add: replay_eval)
  have "drain stuck_replay_env 0 fresh_run =
     Some (Inr 0, \<lparr>calls = [receiveCommand stuck_replay_env, SendMessage ''main'' ''b1''],
                   console = [LogSendFailed ''id-1'' (SdkError ''ServiceUnavailable'')]\<rparr>)"
    by (subst drain.simps) (simp add: ro)
  moreover have "on_receive stuck_replay_env (calls fresh_run) = Inr (Some [dlq_message ''1'' (Some ''b1'')])"
    by (simp add: stuck_replay_env_def)
  ultimately show ?thesis unfolding sample_receiveCommand by blast
qed

text \<open>
  Claim C8, amended. The loop of \<^verbatim>\<open>main\<close> returns exactly when some round does not
  replay a message after rounds that each replayed at least one, and it returns what
  that round gives; if every round replays a message the loop never returns. A round
  replays a message exactly when the receive returns a batch, at least one message of
  it is forwarded with success, and the batch delete does not throw; so the loop
  exits on an empty receive, and also on a batch of which nothing is forwarded.
  \<^verbatim>\<open>main\<close> returns exactly when its loop does.
\<close>

theorem drain_exit_rounds:
  "(drain env tot st = Some r \<longleftrightarrow>
      (\<exists>k. (\<forall>i<k. round_continues env i (tot, st)) \<and> \<not> round_continues env k (tot, st)
           \<and> r = round_exit env k (tot, st)))
   \<and> ((\<forall>k. round_continues env k (tot, st)) \<longrightarrow> drain env tot st = None)
   \<and> (round_continues env 0 (tot, st) \<longleftrightarrow>
        (\<exists>answer. on_receive env (calls st) = Inr answer
           \<and> (let messages = (case answer of None \<Rightarrow> [] | Some ms \<Rightarrow> ms);
                   h = calls st @ [receiveCommand env];
                   sends = map (\<lambda>m. SendMessage (MAIN_QUEUE_URL env) (str (Body m)))
                             (filter (\<lambda>m. \<not> incomplete m) messages);
                   F = forwarded env h messages
               in F \<noteq> [] \<and> (\<forall>e. on_delete env (h @ sends) (map delete_entry F) \<noteq> Inl e))))
   \<and> (main env st = None \<longleftrightarrow> drain env 0 (st\<lparr>console := console st @ [LogStart]\<rparr>) = None)"
proof (intro conjI)
  show "main env st = None \<longleftrightarrow> drain env 0 (st\<lparr>console := console st @ [LogStart]\<rparr>) = None"
    by (simp add: main_def split: option.splits prod.splits sum.splits)
  show iff: "drain env tot st = Some r \<longleftrightarrow>
      (\<exists>k. (\<forall>i<k. round_continues env i (tot, st)) \<and> \<not> round_continues env k (tot, st)
           \<and> r = round_exit env k (tot, st))" for r
    using drain_returns_exit [of env tot st r] drain_exits_at [of _ env tot st] by blast
  show "(\<forall>k. round_continues env k (tot, st)) \<longrightarrow> drain env tot st = None"
  proof
    assume all: "\<forall>k. round_continues env k (tot, st)"
    show "drain env tot st = None"
    proof (cases "drain env tot st")
      case None
      then show ?thesis .
    next
      case (Some r)
      from drain_returns_exit [OF this] all show ?thesis by blast
    qed
  qed
  show "round_continues env 0 (tot, st) \<longleftrightarrow>
        (\<exists>answer. on_receive env (calls st) = Inr answer
           \<and> (let messages = (case answer of None \<Rightarrow> [] | Some ms \<Rightarrow> ms);
                   h = calls st @ [receiveCommand env];
                   sends = map (\<lambda>m. SendMessage (MAIN_QUEUE_URL env) (str (Body m)))
                             (filter (\<lambda>m. \<not> incomplete m) messages);
                   F = forwarded env h messages
               in F \<noteq> [] \<and> (\<forall>e. on_delete env (h @ sends) (map delete_entry F) \<noteq> Inl e)))"
  proof (cases "on_receive env (calls st)")
    case (Inl e)
    then show ?thesis
      by (simp add: round_continues_0 replayOnce_receive_throws)
  next
    case (Inr answer)
    show ?thesis
      unfolding Let_def round_continues_0 replayOnce_answer(1) [OF Inr]
      using Inr by (auto split: sum.splits)
  qed
qed

theorem drain_exit_rounds_witness:
  "drain sample_replay_env 0 fresh_run =
     Some (Inr 2, \<lparr>calls = [ReceiveMessage ''dlq'' 10 1 30, SendMessage ''main'' ''b1'',
                        SendMessage ''main'' ''b3'', SendMessage ''main'' ''b4'',
                        DeleteMessageBatch ''dlq'' [(''id-1'', ''rh-1''), (''id-4'', ''rh-4'')],
                        ReceiveMessage ''dlq'' 10 1 30],
               console = [LogSendFailed ''id-3'' (SdkError ''ServiceUnavailable''), LogDeleteFailed 1, LogBatch 2 2]\<rparr>)"
proof -
  let ?st1 = "\<lparr>calls = [receiveCommand sample_replay_env, SendMessage ''main'' ''b1'',
               SendMessage ''main'' ''b3'', SendMessage ''main'' ''b4'',
               DeleteMessageBatch ''dlq'' [(''id-1'', ''rh-1''), (''id-4'', ''rh-4'')]],
      console = [LogSendFailed ''id-3'' (SdkError ''ServiceUnavailable''), LogDeleteFailed 1, LogBatch 2 2]\<rparr>"
  let ?st2 = "\<lparr>calls = [receiveCommand sample_replay_env, SendMessage ''main'' ''b1'',
                        SendMessage ''main'' ''b3'', SendMessage ''main'' ''b4'',
                        DeleteMessageBatch ''dlq'' [(''id-1'', ''rh-1''), (''id-4'', ''rh-4'')],
                        receiveCommand sample_replay_env],
               console = [LogSendFailed ''id-3'' (SdkError ''ServiceUnavailable''), LogDeleteFailed 1, LogBatch 2 2]\<rparr>"
  have nr: "next_round sample_replay_env (0, fresh_run) = (2, ?st1)"
    unfolding next_round_def prod.case sample_round_1 by simp
  have c0: "round_continues sample_replay_env 0 (0, fresh_run)"
    unfolding round_continues_0 sample_round_1 by simp
  have c1: "\<not> round_continues sample_replay_env (Suc 0) (0, fresh_run)"
    unfolding round_continues_Suc nr round_continues_0 sample_round_2 by simp
  have ex: "round_exit sample_replay_env (Suc 0) (0, fresh_run) = (Inr 2, ?st2)"
    unfolding round_exit_Suc nr round_exit_def round_start.simps snd_conv sample_round_2 by simp
  have "\<exists>k. (\<forall>i<k. round_continues sample_replay_env i (0, fresh_run))
        \<and> \<not> round_continues sample_replay_env k (0, fresh_run)
        \<and> round_exit sample_replay_env (Suc 0) (0, fresh_run) = round_exit sample_replay_env k (0, fresh_run)"
    using c0 c1 by (intro exI [of _ "Suc 0"]) simp
  with drain_exit_rounds [of sample_replay_env 0 fresh_run "round_exit sample_replay_env (Suc 0) (0, fresh_run)"]
  have "drain sample_replay_env 0 fresh_run = Some (round_exit sample_replay_env (Suc 0) (0, fresh_run))"
    by blast
  then show ?thesis unfolding ex sample_receiveCommand .
qed

text \<open>
  Claim C10. Messages without \<^verbatim>\<open>Body\<close>, \<^verbatim>\<open>ReceiptHandle\<close> or \<^verbatim>\<open>MessageId\<close> have no
  effect on the \<^verbatim>\<open>for\<close> loop of \<^verbatim>\<open>replayOnce\<close>: its count, its list of messages
  to delete, the requests sent and the lines printed are those of the batch without
  them. A received batch of only such messages makes \<^verbatim>\<open>replayOnce\<close> return 0 having
  sent nothing but the receive, and the loop of \<^verbatim>\<open>main\<close> exits on it.
\<close>

theorem incomplete_messages_skipped:
  "forward_loop env messages c del st = forward_loop env (filter (\<lambda>m. \<not> incomplete m) messages) c del st
   \<and> (\<forall>ms. on_receive env (calls st) = Inr (Some ms) \<and> ms \<noteq> [] \<and> (\<forall>m\<in>set ms. incomplete m) \<longrightarrow>
          replayOnce env st = (Inr 0, st\<lparr>calls := calls st @ [receiveCommand env]\<rparr>)
          \<and> drain env tot st = Some (Inr tot, st\<lparr>calls := calls st @ [receiveCommand env]\<rparr>))"
proof (intro conjI allI impI)
  show "forward_loop env messages c del st = forward_loop env (filter (\<lambda>m. \<not> incomplete m) messages) c del st"
    by (rule forward_loop_skips)
next
  fix ms
  assume h: "on_receive env (calls st) = Inr (Some ms) \<and> ms \<noteq> [] \<and> (\<forall>m\<in>set ms. incomplete m)"
  let ?st1 = "st\<lparr>calls := calls st @ [receiveCommand env]\<rparr>"
  from h have "filter (\<lambda>m. \<not> incomplete m) ms = []" by (simp add: filter_empty_conv)
  then have fl: "forward_loop env ms 0 [] ?st1 = (0, [], ?st1)"
    using forward_loop_skips [of env ms 0 "[]" ?st1] by simp
  have rm: "receive_message env st = (Inr (Some ms), ?st1)"
    using h by (simp add: receive_message_def)
  show ro: "replayOnce env st = (Inr 0, ?st1)"
    unfolding replayOnce_def rm using h by (simp add: fl)
  show "drain env tot st = Some (Inr tot, ?st1)"
    by (subst drain.simps) (simp add: ro)
qed

theorem incomplete_messages_skipped_witness:
  "replayOnce headless_replay_env fresh_run = (Inr 0, \<lparr>calls = [ReceiveMessage ''dlq'' 10 1 30], console = []\<rparr>)
   \<and> drain headless_replay_env 0 fresh_run = Some (Inr 0, \<lparr>calls = [ReceiveMessage ''dlq'' 10 1 30], console = []\<rparr>)"
proof -
  have h: "on_receive headless_replay_env (calls fresh_run) =
        Inr (Some [\<lparr>MessageId = Some ''id-1'', ReceiptHandle = None, Body = Some ''b1''\<rparr>,
                   \<lparr>MessageId = Some ''id-2'', ReceiptHandle = Some [], Body = Some ''b2''\<rparr>])
      \<and> [\<lparr>MessageId = Some ''id-1'', ReceiptHandle = None, Body = Some ''b1''\<rparr>,
          \<lparr>MessageId = Some ''id-2'', ReceiptHandle = Some [], Body = Some ''b2''\<rparr>] \<noteq> []
      \<and> (\<forall>m\<in>set [\<lparr>MessageId = Some ''id-1'', ReceiptHandle = None, Body = Some ''b1''\<rparr>,
                    \<lparr>MessageId = Some ''id-2'', ReceiptHandle = Some [], Body = Some ''b2''\<rparr>]. incomplete m)"
    by (simp add: headless_replay_env_def incomplete_def missing_def)
  have st: "fresh_run\<lparr>calls := calls fresh_run @ [receiveCommand headless_replay_env]\<rparr>
            = \<lparr>calls = [receiveCommand headless_replay_env], console = []\<rparr>"
    by (simp add: fresh_run_def)
  note inst = incomplete_messages_skipped [of headless_replay_env "[]" 0 "[]" fresh_run 0,
      THEN conjunct2, rule_format, OF h]
  from inst [unfolded st] show ?thesis unfolding sample_receiveCommand .
qed

end
